theory Spec2Isabelle
  imports Main "HOL-Library.Word"
begin

unbundle bit_operations_syntax

section \<open>Buffers and JavaScript numbers\<close>

text \<open>
  A Node \<open>Buffer\<close> is a list of bytes. \<open>buf.slice(start, end)\<close> clamps both
  indices to the length of the buffer; all indices in the sources are non-negative.
\<close>

type_synonym byte = "8 word"
type_synonym bytes = "byte list"

definition slice :: "bytes \<Rightarrow> nat \<Rightarrow> nat \<Rightarrow> bytes" where
  "slice buf start end = take (end - start) (drop start buf)"

text \<open>\<open>Buffer.from(str)\<close>: the bytes of the string (a \<open>string\<close> of HOL is a byte string).\<close>

definition Buffer_from :: "string \<Rightarrow> bytes" where
  "Buffer_from str = map (\<lambda>c. of_nat (of_char c)) str"

text \<open>
  \<open>src.copy(target, targetStart)\<close> overwrites \<open>target\<close> from \<open>targetStart\<close> on with the
  bytes of \<open>src\<close>, as many as fit; the model returns the new target.
\<close>

definition copy :: "bytes \<Rightarrow> bytes \<Rightarrow> nat \<Rightarrow> bytes" where
  "copy src target targetStart =
     (let n = min (length src) (length target - targetStart)
      in take targetStart target @ take n src @ drop (targetStart + n) target)"

datatype error = Error string | RangeError | TypeError

text \<open>
  \<open>buf.writeUInt16BE(value, 0)\<close> on a fresh 2-byte buffer throws a RangeError
  (ERR_OUT_OF_RANGE) when the value does not fit 16 bits; \<open>buf.readUInt16BE(0)\<close>
  throws when the buffer has fewer than two bytes.
\<close>

definition writeUInt16BE :: "nat \<Rightarrow> error + bytes" where
  "writeUInt16BE v =
     (if v > 0xFFFF then Inl RangeError
      else Inr [of_nat (v div 256), of_nat (v mod 256)])"

definition readUInt16BE :: "bytes \<Rightarrow> nat option" where
  "readUInt16BE buf =
     (case buf of b0 # b1 # _ \<Rightarrow> Some (unat b0 * 256 + unat b1) | _ \<Rightarrow> None)"

text \<open>
  A JavaScript number holding a non-negative integer: \<open>n++\<close> is exact below \<open>2^53\<close> and
  leaves \<open>2^53\<close> unchanged (the sum rounds back to even). The bitwise operators first
  convert their operand to a signed 32-bit integer (\<open>ToInt32\<close>); \<open>>>\<close> is the
  sign-propagating shift.
\<close>

definition js_incr :: "nat \<Rightarrow> nat" where
  "js_incr n = (if int n < 2 ^ 53 then n + 1 else n)"

definition ToInt32 :: "int \<Rightarrow> int" where
  "ToInt32 n = (let m = n mod 2 ^ 32 in if m \<ge> 2 ^ 31 then m - 2 ^ 32 else m)"

definition js_and :: "int \<Rightarrow> int \<Rightarrow> int" where
  "js_and a b = ToInt32 a AND ToInt32 b"

definition js_shr :: "int \<Rightarrow> nat \<Rightarrow> int" where
  "js_shr a k = ToInt32 a div 2 ^ (k mod 32)"

section \<open>The crypto module of Node\<close>

text \<open>
  The primitives come from Node's \<open>crypto\<close> module, which is not part of the
  repository; they are parameters of the model.
  \<^item> \<open>randomBytes n\<close>: the bytes \<open>crypto.randomBytes(n)\<close> returns in this session;
  \<^item> \<open>createHash name data\<close>: the digest of a hash object after the updates whose
    concatenation is \<open>data\<close>;
  \<^item> \<open>hkdfSync digest ikm salt info keylen\<close>;
  \<^item> \<open>createCipheriv algorithm key iv authTagLength data\<close>: the result of
    \<open>update(data)\<close>, \<open>final()\<close> and \<open>getAuthTag()\<close> on a fresh cipher, as the pair
    of ciphertext and tag;
  \<^item> \<open>createDecipheriv algorithm key iv authTagLength tag data\<close>: the result of
    \<open>setAuthTag(tag)\<close>, \<open>update(data)\<close> and \<open>final()\<close> on a fresh decipher:
    the plaintext, or \<open>None\<close> when one of them throws.
\<close>

record crypto =
  randomBytes :: "nat \<Rightarrow> bytes"
  createHash :: "string \<Rightarrow> bytes \<Rightarrow> bytes"
  hkdfSync :: "string \<Rightarrow> bytes \<Rightarrow> bytes \<Rightarrow> bytes \<Rightarrow> nat \<Rightarrow> bytes"
  createCipheriv :: "string \<Rightarrow> bytes \<Rightarrow> bytes \<Rightarrow> nat \<Rightarrow> bytes \<Rightarrow> bytes \<times> bytes"
  createDecipheriv :: "string \<Rightarrow> bytes \<Rightarrow> bytes \<Rightarrow> nat \<Rightarrow> bytes \<Rightarrow> bytes \<Rightarrow> bytes option"

section \<open>crypto/methods.js\<close>

record methodInfo =
  keySize :: nat
  saltSize :: nat
  nonceSize :: nat
  tagSize :: nat

definition AEAD_METHODS :: "string \<rightharpoonup> methodInfo" where
  "AEAD_METHODS =
     [''aes-128-gcm'' \<mapsto> \<lparr>keySize = 16, saltSize = 16, nonceSize = 12, tagSize = 16\<rparr>,
      ''aes-256-gcm'' \<mapsto> \<lparr>keySize = 32, saltSize = 32, nonceSize = 12, tagSize = 16\<rparr>,
      ''chacha20-ietf-poly1305'' \<mapsto>
         \<lparr>keySize = 32, saltSize = 32, nonceSize = 12, tagSize = 16\<rparr>]"

text \<open>
  \<open>AEAD_METHODS\<close> is an object literal, so the lookup \<open>AEAD_METHODS[method]\<close> also finds
  the properties that every object inherits from \<open>Object.prototype\<close>. For these names
  the lookup gives a function or an object: a truthy value with none of the four sizes.
\<close>

definition Object_prototype :: "string list" where
  "Object_prototype =
     [''constructor'', ''__defineGetter__'', ''__defineSetter__'', ''hasOwnProperty'',
      ''__lookupGetter__'', ''__lookupSetter__'', ''isPrototypeOf'',
      ''propertyIsEnumerable'', ''toString'', ''valueOf'', ''__proto__'',
      ''toLocaleString'']"

text \<open>
  One round of the loop of \<open>EVP_BytesToKey\<close>, on the pair of \<open>lastRound\<close> and
  \<open>result\<close>; \<open>Math.ceil(keyLen / 16)\<close> is \<open>(keyLen + 15) div 16\<close>.
\<close>

definition EVP_round :: "crypto \<Rightarrow> bytes \<Rightarrow> nat \<Rightarrow> bytes \<times> bytes \<Rightarrow> bytes \<times> bytes" where
  "EVP_round lib passwordBuffer i = (\<lambda>(lastRound, result).
     (let lastRound' = createHash lib ''md5''
                         ((if i > 0 then lastRound else []) @ passwordBuffer)
      in (lastRound', copy lastRound' result (i * 16))))"

definition EVP_BytesToKey :: "crypto \<Rightarrow> string \<Rightarrow> nat \<Rightarrow> bytes" where
  "EVP_BytesToKey lib password keyLen =
     (let md5Rounds = (keyLen + 15) div 16;
          result = replicate (md5Rounds * 16) 0;
          passwordBuffer = Buffer_from password
      in slice (snd (fold (EVP_round lib passwordBuffer) [0..<md5Rounds] ([], result)))
           0 keyLen)"

definition deriveKey :: "crypto \<Rightarrow> string \<Rightarrow> bytes \<Rightarrow> nat \<Rightarrow> bytes" where
  "deriveKey lib password salt keyLen =
     (let passwordKey = EVP_BytesToKey lib password keyLen
      in hkdfSync lib ''sha1'' passwordKey salt (Buffer_from ''ss-subkey'') keyLen)"

text \<open>
  \<open>createAEADCipher\<close> and the calls made on the object it returns. The key is \<open>null\<close>
  (\<open>None\<close>) until the stream is initialised. A method for which the lookup in
  \<open>AEAD_METHODS\<close> is undefined makes \<open>AEAD_METHODS[method].tagSize\<close> throw a TypeError; a
  \<open>null\<close> key makes the constructor of the cipher throw a TypeError; and an inherited
  name, with a key, is passed on as the algorithm, which Node refuses with the Error
  \<open>Unknown cipher\<close> (\<open>ERR_CRYPTO_UNKNOWN_CIPHER\<close>).
\<close>

definition algorithm_of :: "string \<Rightarrow> string" where
  "algorithm_of method =
     (if method = ''chacha20-ietf-poly1305'' then ''chacha20-poly1305'' else method)"

definition createAEADCipher_encrypt ::
  "crypto \<Rightarrow> string \<Rightarrow> bytes option \<Rightarrow> bytes \<Rightarrow> bytes \<Rightarrow> error + (bytes \<times> bytes)" where
  "createAEADCipher_encrypt lib method key nonce data =
     (case AEAD_METHODS method of
        None \<Rightarrow>
          (if method \<in> set Object_prototype \<and> key \<noteq> None
           then Inl (Error ''Unknown cipher'') else Inl TypeError)
      | Some mi \<Rightarrow>
          (case key of
             None \<Rightarrow> Inl TypeError
           | Some k \<Rightarrow> Inr (createCipheriv lib (algorithm_of method) k nonce (tagSize mi) data)))"

definition createAEADCipher_decrypt ::
  "crypto \<Rightarrow> string \<Rightarrow> bytes option \<Rightarrow> bytes \<Rightarrow> bytes \<Rightarrow> bytes \<Rightarrow> error + bytes option" where
  "createAEADCipher_decrypt lib method key nonce tag data =
     (case AEAD_METHODS method of
        None \<Rightarrow>
          (if method \<in> set Object_prototype \<and> key \<noteq> None
           then Inl (Error ''Unknown cipher'') else Inl TypeError)
      | Some mi \<Rightarrow>
          (case key of
             None \<Rightarrow> Inl TypeError
           | Some k \<Rightarrow>
               Inr (createDecipheriv lib (algorithm_of method) k nonce (tagSize mi) tag data)))"

section \<open>crypto/aead.js\<close>

text \<open>
  The fields the two transform streams share. The constructor copies the four sizes out
  of \<open>methodInfo\<close> and never assigns them again, so the model reads them from
  \<open>methodInfo\<close>.
\<close>

record AEADStream =
  "method" :: string
  password :: string
  methodInfo :: methodInfo
  salt :: "bytes option"
  key :: "bytes option"
  nonce :: bytes
  isFirstChunk :: bool
  chunkId :: nat

record AEADDecryptor = AEADStream +
  buffer :: bytes
  expectingLength :: bool
  payloadLength :: nat

text \<open>
  The constructors. A method for which the lookup is undefined is refused with the Error
  \<open>Unsupported method\<close>; an inherited name passes that test, its sizes are undefined,
  and \<open>Buffer.alloc(this.nonceSize, 0)\<close> throws a TypeError.
\<close>

definition new_AEADEncryptor :: "string \<Rightarrow> string \<Rightarrow> error + AEADStream" where
  "new_AEADEncryptor m pw =
     (case AEAD_METHODS m of
        None \<Rightarrow>
          (if m \<in> set Object_prototype then Inl TypeError
           else Inl (Error (''Unsupported method: '' @ m)))
      | Some mi \<Rightarrow>
          Inr \<lparr>method = m, password = pw, methodInfo = mi, salt = None, key = None,
               nonce = replicate (nonceSize mi) 0, isFirstChunk = True, chunkId = 0\<rparr>)"

definition new_AEADDecryptor :: "string \<Rightarrow> string \<Rightarrow> error + AEADDecryptor" where
  "new_AEADDecryptor m pw =
     (case AEAD_METHODS m of
        None \<Rightarrow>
          (if m \<in> set Object_prototype then Inl TypeError
           else Inl (Error (''Unsupported method: '' @ m)))
      | Some mi \<Rightarrow>
          Inr \<lparr>method = m, password = pw, methodInfo = mi, salt = None, key = None,
               nonce = replicate (nonceSize mi) 0, isFirstChunk = True, chunkId = 0,
               buffer = [], expectingLength = True, payloadLength = 0\<rparr>)"

definition initializeEncryption :: "crypto \<Rightarrow> AEADStream \<Rightarrow> AEADStream" where
  "initializeEncryption lib s =
     (let salt' = randomBytes lib (saltSize (methodInfo s))
      in s\<lparr>salt := Some salt',
            key := Some (deriveKey lib (password s) salt' (keySize (methodInfo s))),
            nonce := replicate (length (nonce s)) 0,
            chunkId := 0\<rparr>)"

definition initializeDecryption :: "crypto \<Rightarrow> AEADDecryptor \<Rightarrow> bytes \<Rightarrow> AEADDecryptor" where
  "initializeDecryption lib s salt' =
     s\<lparr>salt := Some salt',
       key := Some (deriveKey lib (password s) salt' (keySize (methodInfo s))),
       nonce := replicate (length (nonce s)) 0,
       chunkId := 0\<rparr>"

text \<open>
  \<open>updateNonce\<close> has the same text in both classes. One pass of its loop, on the pair
  of \<open>n\<close> and the nonce; a store beyond the end of the buffer is ignored, as
  \<open>list_update\<close> does.
\<close>

definition nonce_byte :: "nat \<Rightarrow> int \<times> bytes \<Rightarrow> int \<times> bytes" where
  "nonce_byte i = (\<lambda>(n, nonce).
     if i < 8 then (js_shr n 8, nonce[i := of_int (js_and n 0xff)])
     else (n, nonce[i := 0]))"

definition updateNonce :: "'a AEADStream_scheme \<Rightarrow> 'a AEADStream_scheme" where
  "updateNonce s =
     (let c = js_incr (chunkId s)
      in s\<lparr>chunkId := c, nonce := snd (fold nonce_byte [0..<12] (int c, nonce s))\<rparr>)"

text \<open>
  \<open>AEADEncryptor._transform\<close>: the new state, the buffers pushed, and the error passed
  to the callback, if any.
\<close>

definition AEADEncryptor_transform ::
  "crypto \<Rightarrow> AEADStream \<Rightarrow> bytes \<Rightarrow> AEADStream \<times> bytes list \<times> error option" where
  "AEADEncryptor_transform lib s chunk =
     (let (s1, pushed) =
            (if isFirstChunk s
             then (let s' = initializeEncryption lib s
                   in (s'\<lparr>isFirstChunk := False\<rparr>,
                       [randomBytes lib (saltSize (methodInfo s))]))
             else (s, []))
      in if length chunk = 0 then (s1, pushed, None)
         else
           (case writeUInt16BE (length chunk) of
              Inl e \<Rightarrow> (s1, pushed, Some e)
            | Inr lengthBuf \<Rightarrow>
                (case createAEADCipher_encrypt lib (method s1) (key s1) (nonce s1) lengthBuf of
                   Inl e \<Rightarrow> (s1, pushed, Some e)
                 | Inr (encryptedLength, lengthTag) \<Rightarrow>
                     (let s2 = updateNonce s1
                      in case createAEADCipher_encrypt lib (method s2) (key s2) (nonce s2) chunk of
                           Inl e \<Rightarrow> (s2, pushed, Some e)
                         | Inr (encryptedPayload, payloadTag) \<Rightarrow>
                             (updateNonce s2,
                              pushed @ [encryptedLength @ lengthTag @ encryptedPayload @ payloadTag],
                              None)))))"

text \<open>
  One pass of the \<open>while\<close> loop of \<open>AEADDecryptor._transform\<close>: the loop ends
  (\<open>Break\<close>: the buffer is empty or too short), the method returns with an error
  (\<open>Fail\<close>, the state as it is), or a length field or a payload is consumed
  (\<open>Next\<close>, with the buffers pushed).
\<close>

datatype pass = Break | Fail error | Next AEADDecryptor "bytes list"

definition decrypt_pass :: "crypto \<Rightarrow> AEADDecryptor \<Rightarrow> pass" where
  "decrypt_pass lib s =
     (if \<not> length (buffer s) > 0 then Break
      else if expectingLength s then
        (let lengthSize = 2 + tagSize (methodInfo s)
         in if length (buffer s) < lengthSize then Break
            else
              (let encryptedLength = slice (buffer s) 0 2;
                   lengthTag = slice (buffer s) 2 lengthSize
               in case createAEADCipher_decrypt lib (method s) (key s) (nonce s)
                         lengthTag encryptedLength of
                    Inl e \<Rightarrow> Fail e
                  | Inr None \<Rightarrow> Fail (Error ''AEAD authentication failed for length'')
                  | Inr (Some lengthBuf) \<Rightarrow>
                      (case readUInt16BE lengthBuf of
                         None \<Rightarrow> Fail (Error ''AEAD authentication failed for length'')
                       | Some len \<Rightarrow>
                           Next ((updateNonce (s\<lparr>payloadLength := len\<rparr>))
                                   \<lparr>expectingLength := False,
                                    buffer := drop lengthSize (buffer s)\<rparr>) [])))
      else
        (let payloadSize = payloadLength s + tagSize (methodInfo s)
         in if length (buffer s) < payloadSize then Break
            else
              (let encryptedPayload = slice (buffer s) 0 (payloadLength s);
                   payloadTag = slice (buffer s) (payloadLength s) payloadSize
               in case createAEADCipher_decrypt lib (method s) (key s) (nonce s)
                         payloadTag encryptedPayload of
                    Inl e \<Rightarrow> Fail e
                  | Inr None \<Rightarrow> Fail (Error ''AEAD authentication failed for payload'')
                  | Inr (Some payload) \<Rightarrow>
                      Next ((updateNonce s)
                              \<lparr>expectingLength := True,
                               buffer := drop payloadSize (buffer s)\<rparr>) [payload])))"

definition loop_measure :: "AEADDecryptor \<Rightarrow> nat" where
  "loop_measure s = 2 * length (buffer s) + (if expectingLength s then 0 else 1)"

function decrypt_loop ::
  "crypto \<Rightarrow> AEADDecryptor \<Rightarrow> AEADDecryptor \<times> bytes list \<times> error option" where
  "decrypt_loop lib s =
     (case decrypt_pass lib s of
        Break \<Rightarrow> (s, [], None)
      | Fail e \<Rightarrow> (s, [], Some e)
      | Next s' out \<Rightarrow>
          (case decrypt_loop lib s' of (s'', out', e) \<Rightarrow> (s'', out @ out', e)))"
  by pat_completeness auto
termination
  by (relation "measure (\<lambda>(lib, s). loop_measure s)")
     (auto simp: decrypt_pass_def loop_measure_def updateNonce_def Let_def
           split: if_splits sum.splits option.splits)

declare decrypt_loop.simps [simp del]

definition AEADDecryptor_transform ::
  "crypto \<Rightarrow> AEADDecryptor \<Rightarrow> bytes \<Rightarrow> AEADDecryptor \<times> bytes list \<times> error option" where
  "AEADDecryptor_transform lib s chunk =
     (let s0 = s\<lparr>buffer := buffer s @ chunk\<rparr>
      in if isFirstChunk s0 then
           (if length (buffer s0) < saltSize (methodInfo s0) then (s0, [], None)
            else
              (let salt' = slice (buffer s0) 0 (saltSize (methodInfo s0));
                   s1 = s0\<lparr>buffer := drop (saltSize (methodInfo s0)) (buffer s0)\<rparr>
               in decrypt_loop lib ((initializeDecryption lib s1 salt')\<lparr>isFirstChunk := False\<rparr>)))
         else decrypt_loop lib s0)"

text \<open>
  A Node transform stream handles the buffers written to it one at a time, in order;
  an error passed to the callback destroys the stream, and the buffers written after
  it are not transformed.
\<close>

fun write_all ::
  "('s \<Rightarrow> bytes \<Rightarrow> 's \<times> bytes list \<times> error option) \<Rightarrow> 's \<Rightarrow> bytes list
     \<Rightarrow> 's \<times> bytes list \<times> error option" where
  "write_all f s [] = (s, [], None)"
| "write_all f s (c # cs) =
     (case f s c of
        (s', out, Some e) \<Rightarrow> (s', out, Some e)
      | (s', out, None) \<Rightarrow>
          (case write_all f s' cs of (s'', out', e) \<Rightarrow> (s'', out @ out', e)))"

text \<open>The pushed bytes, concatenated, and the error of a run.\<close>

definition out_err :: "'s \<times> bytes list \<times> error option \<Rightarrow> bytes \<times> error option" where
  "out_err r = (concat (fst (snd r)), snd (snd r))"

section \<open>local.js: the SOCKS5 front end\<close>

text \<open>
  A socket, as far as the handlers use it: the buffers passed to \<open>write\<close>, in order, and
  whether \<open>destroy\<close> was called. A destroyed socket takes no more writes and emits no
  more \<open>data\<close> events.
\<close>

record Socket =
  written :: "bytes list"
  destroyed :: bool

definition socket_write :: "Socket \<Rightarrow> bytes \<Rightarrow> Socket" where
  "socket_write sock data =
     (if destroyed sock then sock else sock\<lparr>written := written sock @ [data]\<rparr>)"

definition destroy :: "Socket \<Rightarrow> Socket" where
  "destroy sock = sock\<lparr>destroyed := True\<rparr>"

text \<open>
  The \<open>data\<close> listener attached to the client socket, with the buffer it closes over:
  \<open>handshakeHandler\<close>, then \<open>requestHandler\<close>; \<open>ConnectToServer targetAddr\<close> once
  \<open>connectToServer\<close> has been called with that buffer.
\<close>

datatype listener = HandshakeHandler bytes | RequestHandler bytes | ConnectToServer bytes

definition handshakeHandler :: "bytes \<Rightarrow> Socket \<Rightarrow> bytes \<Rightarrow> listener \<times> Socket" where
  "handshakeHandler handshakeBuffer clientConn data =
     (let hb = handshakeBuffer @ data
      in if length hb < 2 then (HandshakeHandler hb, clientConn)
         else if hb ! 0 \<noteq> 0x05 then (HandshakeHandler hb, destroy clientConn)
         else
           (let numMethods = unat (hb ! 1)
            in if length hb < 2 + numMethods then (HandshakeHandler hb, clientConn)
               else (RequestHandler [], socket_write clientConn [0x05, 0x00])))"

text \<open>
  \<open>requestHandler\<close> after the \<open>switch\<close> on the address type has set \<open>addrLength\<close>:
  wait for the whole request, then call \<open>connectToServer\<close> with the bytes from the
  address type to the port.
\<close>

definition requestHandler_complete :: "bytes \<Rightarrow> Socket \<Rightarrow> nat \<Rightarrow> listener \<times> Socket" where
  "requestHandler_complete rb clientConn addrLength =
     (if length rb < 4 + addrLength + 2 then (RequestHandler rb, clientConn)
      else
        (let portOffset = 4 + addrLength
         in (ConnectToServer (slice rb 3 (portOffset + 2)), clientConn)))"

definition requestHandler :: "bytes \<Rightarrow> Socket \<Rightarrow> bytes \<Rightarrow> listener \<times> Socket" where
  "requestHandler requestBuffer clientConn data =
     (let rb = requestBuffer @ data
      in if length rb < 4 then (RequestHandler rb, clientConn)
         else if rb ! 0 \<noteq> 0x05 \<or> rb ! 2 \<noteq> 0x00 then (RequestHandler rb, destroy clientConn)
         else if rb ! 1 \<noteq> 0x01 then
           (RequestHandler rb,
            destroy (socket_write clientConn [0x05, 0x07, 0x00, 0x01, 0, 0, 0, 0, 0, 0]))
         else
           (let addrType = rb ! 3
            in if addrType = 0x01 then requestHandler_complete rb clientConn 4
               else if addrType = 0x03 then
                 (if length rb < 5 then (RequestHandler rb, clientConn)
                  else requestHandler_complete rb clientConn (unat (rb ! 4) + 1))
               else if addrType = 0x04 then requestHandler_complete rb clientConn 16
               else
                 (RequestHandler rb,
                  destroy (socket_write clientConn [0x05, 0x08, 0x00, 0x01, 0, 0, 0, 0, 0, 0]))))"

text \<open>A \<open>data\<close> event on the client socket before the relay is set up.\<close>

definition client_data :: "listener \<times> Socket \<Rightarrow> bytes \<Rightarrow> listener \<times> Socket" where
  "client_data st data =
     (case st of (l, clientConn) \<Rightarrow>
        if destroyed clientConn then st
        else
          (case l of
             HandshakeHandler hb \<Rightarrow> handshakeHandler hb clientConn data
           | RequestHandler rb \<Rightarrow> requestHandler rb clientConn data
           | ConnectToServer targetAddr \<Rightarrow> st))"

text \<open>
  The relay that the \<open>connect\<close> callback of \<open>connectToServer\<close> sets up. A transform
  stream that has passed an error to its callback is destroyed; its \<open>error\<close> listener
  destroys both sockets.
\<close>

record Tunnel =
  clientConn :: Socket
  serverConn :: Socket
  encryptor :: AEADStream
  decryptor :: AEADDecryptor
  encryptorDestroyed :: bool
  decryptorDestroyed :: bool

definition write_each :: "Socket \<Rightarrow> bytes list \<Rightarrow> Socket" where
  "write_each sock bufs = fold (\<lambda>b c. socket_write c b) bufs sock"

definition connect_callback ::
  "crypto \<Rightarrow> string \<Rightarrow> string \<Rightarrow> Socket \<Rightarrow> Socket \<Rightarrow> bytes \<Rightarrow> error + Tunnel" where
  "connect_callback lib m pw client server targetAddr =
     (case new_AEADEncryptor m pw of
        Inl e \<Rightarrow> Inl e
      | Inr enc \<Rightarrow>
          (case new_AEADDecryptor m pw of
             Inl e \<Rightarrow> Inl e
           | Inr dec \<Rightarrow>
               (case AEADEncryptor_transform lib enc targetAddr of
                  (enc', out, err) \<Rightarrow>
                    (let client' = socket_write client [0x05, 0x00, 0x00, 0x01, 0, 0, 0, 0, 0, 0];
                         server' = write_each server out
                     in Inr (case err of
                               None \<Rightarrow>
                                 \<lparr>clientConn = client', serverConn = server',
                                  encryptor = enc', decryptor = dec,
                                  encryptorDestroyed = False, decryptorDestroyed = False\<rparr>
                             | Some e \<Rightarrow>
                                 \<lparr>clientConn = destroy client', serverConn = destroy server',
                                  encryptor = enc', decryptor = dec,
                                  encryptorDestroyed = True, decryptorDestroyed = False\<rparr>)))))"

text \<open>
  \<open>serverConn.pipe(decryptor).pipe(clientConn)\<close>: a \<open>data\<close> event on the server socket.
  A zero-length buffer that the decryptor pushes (the payload of a chunk of length 0) is
  dropped by the readable side of the stream: it raises no \<open>data\<close> event, and the pipe
  writes nothing for it.
\<close>

definition serverConn_data :: "crypto \<Rightarrow> Tunnel \<Rightarrow> bytes \<Rightarrow> Tunnel" where
  "serverConn_data lib t data =
     (if destroyed (serverConn t) \<or> decryptorDestroyed t then t
      else
        (case AEADDecryptor_transform lib (decryptor t) data of
           (d', out, err) \<Rightarrow>
             (case err of
                None \<Rightarrow>
                  t\<lparr>decryptor := d',
                    clientConn := write_each (clientConn t) (filter (\<lambda>b. b \<noteq> []) out)\<rparr>
              | Some e \<Rightarrow>
                  t\<lparr>decryptor := d', decryptorDestroyed := True,
                    clientConn :=
                      destroy (write_each (clientConn t) (filter (\<lambda>b. b \<noteq> []) out)),
                    serverConn := destroy (serverConn t)\<rparr>)))"

text \<open>\<open>clientConn.pipe(encryptor).pipe(serverConn)\<close>: a \<open>data\<close> event on the client socket.\<close>

definition clientConn_data :: "crypto \<Rightarrow> Tunnel \<Rightarrow> bytes \<Rightarrow> Tunnel" where
  "clientConn_data lib t data =
     (if destroyed (clientConn t) \<or> encryptorDestroyed t then t
      else
        (case AEADEncryptor_transform lib (encryptor t) data of
           (e', out, err) \<Rightarrow>
             (case err of
                None \<Rightarrow> t\<lparr>encryptor := e', serverConn := write_each (serverConn t) out\<rparr>
              | Some e \<Rightarrow>
                  t\<lparr>encryptor := e', encryptorDestroyed := True,
                    clientConn := destroy (clientConn t),
                    serverConn := destroy (write_each (serverConn t) out)\<rparr>)))"

section \<open>The statements of the specification\<close>

text \<open>
  The key stretch in the words of the specification: \<open>d_0 = MD5(password)\<close>,
  \<open>d_i = MD5(d_{i-1} \<parallel> password)\<close>, and the key is the concatenation of the \<open>d_i\<close>
  cut to \<open>key_size\<close> bytes; \<open>key_size\<close> digests are enough to fill it.
\<close>

fun spec_d :: "(bytes \<Rightarrow> bytes) \<Rightarrow> bytes \<Rightarrow> nat \<Rightarrow> bytes" where
  "spec_d md5 pw 0 = md5 pw"
| "spec_d md5 pw (Suc i) = md5 (spec_d md5 pw i @ pw)"

definition spec_EVP_BytesToKey :: "(bytes \<Rightarrow> bytes) \<Rightarrow> bytes \<Rightarrow> nat \<Rightarrow> bytes" where
  "spec_EVP_BytesToKey md5 pw key_size = take key_size (concat (map (spec_d md5 pw) [0..<key_size]))"

definition spec_deriveKey :: "crypto \<Rightarrow> string \<Rightarrow> bytes \<Rightarrow> nat \<Rightarrow> bytes" where
  "spec_deriveKey lib pw salt' key_size =
     hkdfSync lib ''sha1''
       (spec_EVP_BytesToKey (createHash lib ''md5'') (Buffer_from pw) key_size)
       salt' [0x73, 0x73, 0x2d, 0x73, 0x75, 0x62, 0x6b, 0x65, 0x79] key_size"

text \<open>
  The sub-chunks of the specification: \<open>P\<close> cut, in order, into pieces of \<open>0x3FFF\<close>
  bytes, the last one shorter.
\<close>

function spec_sub_chunks :: "bytes \<Rightarrow> bytes list" where
  "spec_sub_chunks P =
     (if P = [] then [] else take 0x3FFF P # spec_sub_chunks (drop 0x3FFF P))"
  by pat_completeness auto
termination
  by (relation "measure length") auto

declare spec_sub_chunks.simps [simp del]

text \<open>The 12-byte little-endian encoding of a counter.\<close>

definition le_bytes :: "nat \<Rightarrow> nat \<Rightarrow> bytes" where
  "le_bytes len n = map (\<lambda>i. of_nat (n div 256 ^ i)) [0..<len]"

section \<open>Primitives to run the model on\<close>

text \<open>
  What the streams need from the primitives: \<open>randomBytes\<close> returns as many bytes as
  asked for; a cipher returns a ciphertext as long as the plaintext and a tag of the
  length asked for, and the decipher with the same algorithm, key, nonce and tag length
  gives the plaintext back.
\<close>

definition crypto_ok :: "crypto \<Rightarrow> bool" where
  "crypto_ok lib \<longleftrightarrow>
     (\<forall>n. length (randomBytes lib n) = n) \<and>
     (\<forall>alg k iv t p.
        length (fst (createCipheriv lib alg k iv t p)) = length p \<and>
        length (snd (createCipheriv lib alg k iv t p)) = t \<and>
        createDecipheriv lib alg k iv t (snd (createCipheriv lib alg k iv t p))
          (fst (createCipheriv lib alg k iv t p)) = Some p)"

text \<open>
  A small instance: the pad is the sum of the bytes of key and nonce, the ciphertext is
  the plaintext XOR the pad, the tag repeats the pad plus the sum of the plaintext
  bytes. The digests have 16 bytes.
\<close>

definition toy_pad :: "bytes \<Rightarrow> bytes \<Rightarrow> byte" where
  "toy_pad k iv = sum_list (k @ iv) + 0x5A"

definition toy_crypto :: crypto where
  "toy_crypto =
     \<lparr>randomBytes = (\<lambda>n. replicate n 0x07),
      createHash = (\<lambda>name d. replicate 16 (sum_list d + 1)),
      hkdfSync = (\<lambda>digest ikm salt' info keylen.
         take keylen (ikm @ salt' @ info @ replicate keylen 0)),
      createCipheriv = (\<lambda>alg k iv t p.
         (map (\<lambda>b. b XOR toy_pad k iv) p, replicate t (toy_pad k iv + sum_list p))),
      createDecipheriv = (\<lambda>alg k iv t tag c.
         (let p = map (\<lambda>b. b XOR toy_pad k iv) c
          in if tag = replicate t (toy_pad k iv + sum_list p) then Some p else None))\<rparr>"

section \<open>Frames and streams in step\<close>

text \<open>
  What \<open>writeUInt16BE\<close> stores for a length that fits, and the buffer that step 5 of
  \<open>AEADEncryptor._transform\<close> pushes for the chunk \<open>p\<close>: the sealed length and the
  sealed payload, under the nonces \<open>n1\<close> and \<open>n2\<close>.
\<close>

definition lengthBuf :: "nat \<Rightarrow> bytes" where
  "lengthBuf n = [of_nat (n div 256), of_nat (n mod 256)]"

definition chunk_frame ::
  "crypto \<Rightarrow> string \<Rightarrow> bytes \<Rightarrow> nat \<Rightarrow> bytes \<Rightarrow> bytes \<Rightarrow> bytes \<Rightarrow> bytes" where
  "chunk_frame lib alg k t n1 n2 p =
     fst (createCipheriv lib alg k n1 t (lengthBuf (length p))) @
     snd (createCipheriv lib alg k n1 t (lengthBuf (length p))) @
     fst (createCipheriv lib alg k n2 t p) @
     snd (createCipheriv lib alg k n2 t p)"

text \<open>
  An encryptor after the first lines of its first \<open>_transform\<close>, and an encryptor and a
  decryptor that are in step: same method, key, nonce and counter, the salt behind
  them, the decryptor at a chunk boundary with an empty carry buffer.
\<close>

definition started :: "crypto \<Rightarrow> AEADStream \<Rightarrow> AEADStream" where
  "started lib e = (initializeEncryption lib e)\<lparr>isFirstChunk := False\<rparr>"

definition in_sync :: "AEADStream \<Rightarrow> AEADDecryptor \<Rightarrow> bool" where
  "in_sync e d \<longleftrightarrow>
     (method d = method e \<and> methodInfo d = methodInfo e \<and> key d = key e) \<and>
     nonce d = nonce e \<and> chunkId d = chunkId e \<and>
     \<not> isFirstChunk e \<and> \<not> isFirstChunk d \<and> expectingLength d \<and> buffer d = [] \<and>
     key e \<noteq> None \<and> AEAD_METHODS (method e) = Some (methodInfo e)"

section \<open>Concrete streams\<close>

text \<open>
  The streams that \<open>new AEADEncryptor('aes-128-gcm', 'pw')\<close> and
  \<open>new AEADDecryptor('aes-128-gcm', 'pw')\<close> construct, and a decryptor that has read its
  salt.
\<close>

definition fresh_encryptor :: AEADStream where
  "fresh_encryptor =
     \<lparr>method = ''aes-128-gcm'', password = ''pw'',
      methodInfo = \<lparr>keySize = 16, saltSize = 16, nonceSize = 12, tagSize = 16\<rparr>,
      salt = None, key = None, nonce = replicate 12 0, isFirstChunk = True, chunkId = 0\<rparr>"

definition fresh_decryptor :: AEADDecryptor where
  "fresh_decryptor =
     \<lparr>method = ''aes-128-gcm'', password = ''pw'',
      methodInfo = \<lparr>keySize = 16, saltSize = 16, nonceSize = 12, tagSize = 16\<rparr>,
      salt = None, key = None, nonce = replicate 12 0, isFirstChunk = True, chunkId = 0,
      buffer = [], expectingLength = True, payloadLength = 0\<rparr>"

definition running_decryptor :: AEADDecryptor where
  "running_decryptor =
     fresh_decryptor\<lparr>salt := Some (replicate 16 7), key := Some (replicate 16 232),
                     isFirstChunk := False\<rparr>"

definition running_encryptor :: AEADStream where
  "running_encryptor =
     fresh_encryptor\<lparr>salt := Some (replicate 16 7), key := Some (replicate 16 232),
                     isFirstChunk := False\<rparr>"

text \<open>
  The next pass of the decryptor's loop tries to open a length field or a payload, and
  the decipher throws: enough bytes are buffered, and \<open>final()\<close> fails.
\<close>

definition open_fails :: "crypto \<Rightarrow> AEADDecryptor \<Rightarrow> bool" where
  "open_fails lib s \<longleftrightarrow>
     buffer s \<noteq> [] \<and>
     (if expectingLength s then
        2 + tagSize (methodInfo s) \<le> length (buffer s) \<and>
        createAEADCipher_decrypt lib (method s) (key s) (nonce s)
          (slice (buffer s) 2 (2 + tagSize (methodInfo s))) (slice (buffer s) 0 2) = Inr None
      else
        payloadLength s + tagSize (methodInfo s) \<le> length (buffer s) \<and>
        createAEADCipher_decrypt lib (method s) (key s) (nonce s)
          (slice (buffer s) (payloadLength s) (payloadLength s + tagSize (methodInfo s)))
          (slice (buffer s) 0 (payloadLength s)) = Inr None)"

text \<open>A relay right after its \<open>connect\<close> callback, with streams that have passed the salt.\<close>

definition live_tunnel :: Tunnel where
  "live_tunnel =
     \<lparr>clientConn = \<lparr>written = [], destroyed = False\<rparr>,
      serverConn = \<lparr>written = [], destroyed = False\<rparr>,
      encryptor = running_encryptor, decryptor = running_decryptor,
      encryptorDestroyed = False, decryptorDestroyed = False\<rparr>"

text \<open>A client socket that has just been accepted.\<close>

definition new_socket :: Socket where
  "new_socket = \<lparr>written = [], destroyed = False\<rparr>"

section \<open>The decryptor does not depend on how its input is cut\<close>

lemma slice_append_left:
  "e \<le> length xs \<Longrightarrow> slice (xs @ ys) b e = slice xs b e"
  by (simp add: slice_def)

lemma decrypt_pass_append_Next:
  "decrypt_pass lib s = Next s' out \<Longrightarrow>
   decrypt_pass lib (s\<lparr>buffer := buffer s @ c\<rparr>) = Next (s'\<lparr>buffer := buffer s' @ c\<rparr>) out"
  by (auto simp: decrypt_pass_def Let_def updateNonce_def slice_append_left
           split: if_splits sum.splits option.splits)

lemma decrypt_pass_append_Fail:
  "decrypt_pass lib s = Fail e \<Longrightarrow> decrypt_pass lib (s\<lparr>buffer := buffer s @ c\<rparr>) = Fail e"
  by (auto simp: decrypt_pass_def Let_def updateNonce_def slice_append_left
           split: if_splits sum.splits option.splits)

lemma decrypt_loop_append:
  "decrypt_loop lib (s\<lparr>buffer := buffer s @ c\<rparr>) =
     (case decrypt_loop lib s of
        (s1, o1, Some e) \<Rightarrow> (s1\<lparr>buffer := buffer s1 @ c\<rparr>, o1, Some e)
      | (s1, o1, None) \<Rightarrow>
          (case decrypt_loop lib (s1\<lparr>buffer := buffer s1 @ c\<rparr>) of
             (s2, o2, e) \<Rightarrow> (s2, o1 @ o2, e)))"
proof (induction lib s rule: decrypt_loop.induct)
  case (1 lib s)
  show ?case
  proof (cases "decrypt_pass lib s")
    case Break
    then show ?thesis
      by (simp add: decrypt_loop.simps [of lib s] split: prod.splits)
  next
    case (Fail e)
    then show ?thesis
      by (simp add: decrypt_loop.simps [of lib s]
            decrypt_loop.simps [of lib "s\<lparr>buffer := buffer s @ c\<rparr>"]
            decrypt_pass_append_Fail)
  next
    case (Next s' out)
    then show ?thesis
      using "1.IH" [OF Next]
      by (simp add: decrypt_loop.simps [of lib s]
            decrypt_loop.simps [of lib "s\<lparr>buffer := buffer s @ c\<rparr>"]
            decrypt_pass_append_Next split: prod.splits option.splits)
  qed
qed

lemma decrypt_pass_isFirstChunk:
  "decrypt_pass lib s = Next s' out \<Longrightarrow> isFirstChunk s' = isFirstChunk s"
  by (auto simp: decrypt_pass_def Let_def updateNonce_def
           split: if_splits sum.splits option.splits)

lemma decrypt_loop_isFirstChunk:
  "decrypt_loop lib s = (s', out, e) \<Longrightarrow> isFirstChunk s' = isFirstChunk s"
proof (induction lib s arbitrary: s' out e rule: decrypt_loop.induct)
  case (1 lib s)
  show ?case
  proof (cases "decrypt_pass lib s")
    case Break
    with "1.prems" show ?thesis by (simp add: decrypt_loop.simps [of lib s])
  next
    case (Fail x)
    with "1.prems" show ?thesis by (simp add: decrypt_loop.simps [of lib s])
  next
    case (Next t out1)
    obtain t' out2 e2 where r: "decrypt_loop lib t = (t', out2, e2)"
      by (cases "decrypt_loop lib t") auto
    from "1.prems" Next r have "s' = t'"
      by (simp add: decrypt_loop.simps [of lib s])
    with "1.IH" [OF Next r] decrypt_pass_isFirstChunk [OF Next] show ?thesis by simp
  qed
qed

lemma AEADDecryptor_transform_append:
  "AEADDecryptor_transform lib s (c1 @ c2) =
     (case AEADDecryptor_transform lib s c1 of
        (s1, o1, Some e) \<Rightarrow> (s1\<lparr>buffer := buffer s1 @ c2\<rparr>, o1, Some e)
      | (s1, o1, None) \<Rightarrow>
          (case AEADDecryptor_transform lib s1 c2 of (s2, o2, e) \<Rightarrow> (s2, o1 @ o2, e)))"
proof (cases "isFirstChunk s \<and> length (buffer s @ c1) < saltSize (methodInfo s)")
  case True
  then show ?thesis
    by (simp add: AEADDecryptor_transform_def Let_def split: prod.splits)
next
  case False
  define X where "X = (if isFirstChunk s
     then (initializeDecryption lib
             (s\<lparr>buffer := drop (saltSize (methodInfo s)) (buffer s @ c1)\<rparr>)
             (slice (buffer s @ c1) 0 (saltSize (methodInfo s))))\<lparr>isFirstChunk := False\<rparr>
     else s\<lparr>buffer := buffer s @ c1\<rparr>)"
  have nf: "\<not> isFirstChunk X"
    by (simp add: X_def initializeDecryption_def)
  from False have t1: "AEADDecryptor_transform lib s c1 = decrypt_loop lib X"
    by (auto simp: AEADDecryptor_transform_def Let_def X_def)
  from False have t2: "AEADDecryptor_transform lib s (c1 @ c2) =
      decrypt_loop lib (X\<lparr>buffer := buffer X @ c2\<rparr>)"
    by (cases s)
       (auto simp: AEADDecryptor_transform_def Let_def X_def initializeDecryption_def
          slice_def)
  obtain s1 o1 e1 where r: "decrypt_loop lib X = (s1, o1, e1)"
    by (cases "decrypt_loop lib X") auto
  from decrypt_loop_isFirstChunk [OF r] nf have nf1: "\<not> isFirstChunk s1" by simp
  then have t3: "AEADDecryptor_transform lib s1 c2 =
      decrypt_loop lib (s1\<lparr>buffer := buffer s1 @ c2\<rparr>)"
    by (simp add: AEADDecryptor_transform_def Let_def)
  show ?thesis
    unfolding t1 t2 decrypt_loop_append [of lib X c2] r
    by (simp add: t3 split: option.splits)
qed

lemma out_err_prepend:
  "out_err (case r of (s, out, e) \<Rightarrow> (s, o1 @ out, e)) =
   (concat o1 @ fst (out_err r), snd (out_err r))"
  by (cases r) (simp add: out_err_def)

lemma write_all_concat:
  "out_err (write_all (AEADDecryptor_transform lib) s (b # bs)) =
   out_err (AEADDecryptor_transform lib s (b @ concat bs))"
proof (induction bs arbitrary: s b)
  case Nil
  then show ?case
    by (simp add: out_err_def split: prod.splits option.splits)
next
  case (Cons b' bs)
  obtain s1 o1 e1 where r: "AEADDecryptor_transform lib s b = (s1, o1, e1)"
    by (cases "AEADDecryptor_transform lib s b") auto
  show ?case
  proof (cases e1)
    case None
    have "out_err (write_all (AEADDecryptor_transform lib) s (b # b' # bs)) =
          out_err (case write_all (AEADDecryptor_transform lib) s1 (b' # bs) of
                     (s'', out', e) \<Rightarrow> (s'', o1 @ out', e))"
      using r None by (simp del: write_all.simps add: write_all.simps(2) [of _ s b])
    also have "\<dots> = (concat o1 @ fst (out_err (AEADDecryptor_transform lib s1 (b' @ concat bs))),
                       snd (out_err (AEADDecryptor_transform lib s1 (b' @ concat bs))))"
      unfolding out_err_prepend Cons.IH [of s1 b'] ..
    also have "\<dots> = out_err (AEADDecryptor_transform lib s (b @ concat (b' # bs)))"
      using r None
      by (simp add: AEADDecryptor_transform_append [of lib s b] out_err_prepend)
    finally show ?thesis .
  next
    case (Some e)
    with r show ?thesis
      by (simp add: AEADDecryptor_transform_append [of lib s b] out_err_def)
  qed
qed

lemma decrypt_loop_empty:
  "buffer s = [] \<Longrightarrow> decrypt_loop lib s = (s, [], None)"
  by (simp add: decrypt_loop.simps [of lib s] decrypt_pass_def)

lemma new_AEADDecryptor_empty:
  "new_AEADDecryptor m pw = Inr d \<Longrightarrow>
   out_err (AEADDecryptor_transform lib d []) = ([], None)"
  by (auto simp: new_AEADDecryptor_def AEADDecryptor_transform_def out_err_def Let_def
        decrypt_loop_empty initializeDecryption_def
        split: option.splits if_splits)

lemma write_all_partition:
  assumes "new_AEADDecryptor m pw = Inr d"
  shows "out_err (write_all (AEADDecryptor_transform lib) d bs) =
         out_err (AEADDecryptor_transform lib d (concat bs))"
proof (cases bs)
  case Nil
  with assms show ?thesis
    by (simp add: new_AEADDecryptor_empty) (simp add: out_err_def)
next
  case (Cons b bs')
  with write_all_concat [of lib d b bs'] show ?thesis by simp
qed

section \<open>The nonce of a small counter\<close>

lemma ToInt32_id: "0 \<le> n \<Longrightarrow> n < 2 ^ 31 \<Longrightarrow> ToInt32 n = n"
  by (simp add: ToInt32_def)

lemma js_shr_8: "0 \<le> n \<Longrightarrow> n < 2 ^ 31 \<Longrightarrow> js_shr n 8 = n div 256"
  by (simp add: js_shr_def ToInt32_id)

lemma js_and_255:
  assumes "0 \<le> n" and "n < 2 ^ 31"
  shows "(word_of_int (js_and n 255) :: byte) = word_of_int n"
proof -
  have "n AND 255 = take_bit 8 n"
    by (simp add: take_bit_eq_mask mask_eq_exp_minus_1)
  with assms show ?thesis
    by (simp add: js_and_def ToInt32_id word_of_int_eq_iff)
qed

lemma nonce_byte_low:
  "i < 8 \<Longrightarrow> 0 \<le> n \<Longrightarrow> n < 2 ^ 31 \<Longrightarrow>
   nonce_byte i (n, xs) = (n div 256, xs[i := word_of_int n])"
  by (simp add: nonce_byte_def js_shr_8 js_and_255)

lemma nonce_byte_high:
  "\<not> i < 8 \<Longrightarrow> nonce_byte i (n, xs) = (n, xs[i := 0])"
  by (simp add: nonce_byte_def)

lemma upt_12: "[0..<12] = [0, 1, 2, 3, 4, 5, 6, 7, 8, 9, 10, 11]"
  by code_simp

lemma list_12_update:
  assumes "length xs = 12"
  shows "xs[0 := a0, 1 := a1, 2 := a2, 3 := a3, 4 := a4, 5 := a5, 6 := a6, 7 := a7,
            8 := a8, 9 := a9, 10 := a10, 11 := a11] =
         [a0, a1, a2, a3, a4, a5, a6, a7, a8, a9, a10, a11]"
proof -
  from assms obtain x0 x1 x2 x3 x4 x5 x6 x7 x8 x9 x10 x11 where
    "xs = [x0, x1, x2, x3, x4, x5, x6, x7, x8, x9, x10, x11]"
    by (auto simp: numeral_eq_Suc length_Suc_conv)
  then show ?thesis by simp
qed

lemma nonce_byte_low_nat:
  "i < 8 \<Longrightarrow> m < 2 ^ 31 \<Longrightarrow>
   nonce_byte i (int m, xs) = (int (m div 256), xs[i := of_nat m])"
  by (simp add: nonce_byte_low zdiv_int)

lemma nonce_byte_zero: "nonce_byte i (0, xs) = (0, xs[i := 0])"
  by (simp add: nonce_byte_def js_shr_def js_and_def ToInt32_def)

lemma div_256_less: "m < 2 ^ 31 \<Longrightarrow> m div 256 < (2::nat) ^ 31"
  by (meson div_le_dividend le_less_trans)

lemma le_bytes_12:
  "le_bytes 12 c = [of_nat c, of_nat (c div 256), of_nat (c div 256 ^ 2), of_nat (c div 256 ^ 3),
     of_nat (c div 256 ^ 4), of_nat (c div 256 ^ 5), of_nat (c div 256 ^ 6), of_nat (c div 256 ^ 7),
     of_nat (c div 256 ^ 8), of_nat (c div 256 ^ 9), of_nat (c div 256 ^ 10), of_nat (c div 256 ^ 11)]"
  unfolding le_bytes_def upt_12 by simp

lemma fold_nonce_byte:
  assumes "c < 2 ^ 31" and "length xs = 12"
  shows "snd (fold nonce_byte [0..<12] (int c, xs)) = le_bytes 12 c"
proof -
  have "snd (fold nonce_byte [0..<12] (int c, xs)) =
        xs[0 := of_nat c, 1 := of_nat (c div 256), 2 := of_nat (c div 256 div 256),
           3 := of_nat (c div 256 div 256 div 256),
           4 := of_nat (c div 256 div 256 div 256 div 256),
           5 := of_nat (c div 256 div 256 div 256 div 256 div 256),
           6 := of_nat (c div 256 div 256 div 256 div 256 div 256 div 256),
           7 := of_nat (c div 256 div 256 div 256 div 256 div 256 div 256 div 256),
           8 := 0, 9 := 0, 10 := 0, 11 := 0]"
    unfolding upt_12 using assms(1)
    by (simp add: nonce_byte_low_nat nonce_byte_zero)
  also have "\<dots> = [of_nat c, of_nat (c div 256), of_nat (c div 256 div 256),
           of_nat (c div 256 div 256 div 256),
           of_nat (c div 256 div 256 div 256 div 256),
           of_nat (c div 256 div 256 div 256 div 256 div 256),
           of_nat (c div 256 div 256 div 256 div 256 div 256 div 256),
           of_nat (c div 256 div 256 div 256 div 256 div 256 div 256 div 256),
           0, 0, 0, 0]"
    by (rule list_12_update [OF assms(2)])
  also have "\<dots> = le_bytes 12 c"
    using assms(1) by (simp add: le_bytes_12 div_mult2_eq [symmetric])
  finally show ?thesis .
qed

lemma updateNonce_small:
  assumes "chunkId s + 1 < 2 ^ 31" and "length (nonce s) = 12"
  shows "updateNonce s = s\<lparr>chunkId := chunkId s + 1, nonce := le_bytes 12 (chunkId s + 1)\<rparr>"
proof -
  from assms(1) have j: "js_incr (chunkId s) = chunkId s + 1"
    by (simp add: js_incr_def)
  have f: "snd (fold nonce_byte [0..<12] (int (chunkId s + 1), nonce s)) =
           le_bytes 12 (chunkId s + 1)"
    using assms by (rule fold_nonce_byte)
  show ?thesis
    by (simp only: updateNonce_def Let_def j f)
qed


section \<open>One chunk through the encryptor and the decryptor\<close>

lemma read_write_UInt16BE:
  "n \<le> 0xFFFF \<Longrightarrow> writeUInt16BE n = Inr lb \<Longrightarrow> readUInt16BE lb = Some n"
  by (auto simp: writeUInt16BE_def readUInt16BE_def unat_of_nat take_bit_nat_eq_self_iff
        div_less_iff_less_mult)

lemma updateNonce_fields [simp]:
  "method (updateNonce s) = method s"
  "methodInfo (updateNonce s) = methodInfo s"
  "key (updateNonce s) = key s"
  "isFirstChunk (updateNonce s) = isFirstChunk s"
  "password (updateNonce s) = password s"
  "salt (updateNonce s) = salt s"
  by (simp_all add: updateNonce_def Let_def)

lemma updateNonce_more [simp]:
  "buffer (updateNonce d) = buffer d"
  "expectingLength (updateNonce d) = expectingLength d"
  "payloadLength (updateNonce d) = payloadLength d"
  by (simp_all add: updateNonce_def Let_def)

lemma updateNonce_cong:
  "chunkId a = chunkId b \<Longrightarrow> nonce a = nonce b \<Longrightarrow>
   chunkId (updateNonce a) = chunkId (updateNonce b) \<and>
   nonce (updateNonce a) = nonce (updateNonce b)"
  by (simp add: updateNonce_def Let_def)

lemma AEAD_METHODS_sizes:
  "AEAD_METHODS m = Some mi \<Longrightarrow> tagSize mi = 16 \<and> nonceSize mi = 12"
  by (auto simp: AEAD_METHODS_def split: if_splits)

lemma writeUInt16BE_lengthBuf:
  "n \<le> 0xFFFF \<Longrightarrow> writeUInt16BE n = Inr (lengthBuf n)"
  by (simp add: writeUInt16BE_def lengthBuf_def)

lemma readUInt16BE_lengthBuf:
  "n \<le> 0xFFFF \<Longrightarrow> readUInt16BE (lengthBuf n) = Some n"
  by (rule read_write_UInt16BE) (simp_all add: writeUInt16BE_lengthBuf)

lemma encrypt_frame:
  assumes "\<not> isFirstChunk e" and "key e = Some k" and "AEAD_METHODS (method e) = Some mi"
    and "0 < length p" and "length p \<le> 0xFFFF"
  shows "AEADEncryptor_transform lib e p =
           (updateNonce (updateNonce e),
            [chunk_frame lib (algorithm_of (method e)) k (tagSize mi)
               (nonce e) (nonce (updateNonce e)) p],
            None)"
  using assms
  by (simp add: AEADEncryptor_transform_def createAEADCipher_encrypt_def split_beta
        writeUInt16BE_lengthBuf chunk_frame_def Let_def)

lemma decrypt_frame:
  assumes ok: "crypto_ok lib"
    and fd: "\<not> isFirstChunk d" and xd: "expectingLength d" and bd: "buffer d = []"
    and kd: "key d = Some k" and mi: "AEAD_METHODS (method d) = Some (methodInfo d)"
    and le: "length p \<le> 0xFFFF"
  shows "AEADDecryptor_transform lib d
           (chunk_frame lib (algorithm_of (method d)) k (tagSize (methodInfo d))
              (nonce d) (nonce (updateNonce d)) p) =
         ((updateNonce (updateNonce d))\<lparr>payloadLength := length p\<rparr>, [p], None)"
proof -
  define t where "t = tagSize (methodInfo d)"
  define alg where "alg = algorithm_of (method d)"
  define lb where "lb = lengthBuf (length p)"
  define n2 where "n2 = nonce (updateNonce d)"
  define c1 where "c1 = fst (createCipheriv lib alg k (nonce d) t lb)"
  define t1 where "t1 = snd (createCipheriv lib alg k (nonce d) t lb)"
  define c2 where "c2 = fst (createCipheriv lib alg k n2 t p)"
  define t2 where "t2 = snd (createCipheriv lib alg k n2 t p)"
  define frame where "frame = c1 @ t1 @ c2 @ t2"
  have fr: "chunk_frame lib (algorithm_of (method d)) k (tagSize (methodInfo d))
              (nonce d) (nonce (updateNonce d)) p = frame"
    by (simp add: chunk_frame_def frame_def c1_def t1_def c2_def t2_def lb_def alg_def
          t_def n2_def)
  from AEAD_METHODS_sizes [OF mi] have tpos: "0 < t" by (simp add: t_def)
  from le have r: "readUInt16BE lb = Some (length p)"
    unfolding lb_def by (rule readUInt16BE_lengthBuf)
  from ok have l1: "length c1 = 2" and lt1: "length t1 = t"
    and l2: "length c2 = length p" and lt2: "length t2 = t"
    and o1: "createDecipheriv lib alg k (nonce d) t t1 c1 = Some lb"
    and o2: "createDecipheriv lib alg k n2 t t2 c2 = Some p"
    by (simp_all add: crypto_ok_def c1_def t1_def c2_def t2_def lb_def lengthBuf_def)
  define da where "da = d\<lparr>buffer := frame\<rparr>"
  define db where "db = (updateNonce (da\<lparr>payloadLength := length p\<rparr>))
                          \<lparr>expectingLength := False, buffer := c2 @ t2\<rparr>"
  define dc where "dc = (updateNonce db)\<lparr>expectingLength := True, buffer := []\<rparr>"
  have s1: "slice frame 0 2 = c1" and s2: "slice frame 2 (Suc (Suc t)) = t1"
    and s3: "drop (Suc (Suc t)) frame = c2 @ t2"
    and lf: "length frame = Suc (Suc t) + length p + t"
    using l1 lt1 l2 lt2 by (simp_all add: slice_def frame_def)
  have p1: "decrypt_pass lib da = Next db []"
    using xd kd mi o1 r
    by (simp add: decrypt_pass_def da_def db_def Let_def createAEADCipher_decrypt_def
          t_def [symmetric] alg_def [symmetric] s1 s2 s3 lf)
  have nb: "nonce db = n2"
    using updateNonce_cong [of "da\<lparr>payloadLength := length p\<rparr>" d]
    by (simp add: db_def da_def n2_def)
  have s4: "slice (c2 @ t2) 0 (length p) = c2"
    and s5: "slice (c2 @ t2) (length p) (length p + t) = t2"
    using l2 lt2 by (simp_all add: slice_def)
  have dbf: "\<not> expectingLength db" "buffer db = c2 @ t2" "payloadLength db = length p"
    "methodInfo db = methodInfo d" "method db = method d" "key db = Some k"
    using kd by (simp_all add: db_def da_def)
  from lt2 tpos have t2ne: "t2 \<noteq> []" by auto
  have p2: "decrypt_pass lib db = Next dc [p]"
    using mi o2 t2ne l2 lt2 tpos
    by (simp add: decrypt_pass_def Let_def createAEADCipher_decrypt_def dbf nb s4 s5
          t_def [symmetric] alg_def [symmetric] dc_def)
  have p3: "decrypt_pass lib dc = Break"
    by (simp add: decrypt_pass_def dc_def)
  have loop: "decrypt_loop lib da = (dc, [p], None)"
    by (simp add: decrypt_loop.simps [of lib da] decrypt_loop.simps [of lib db]
          decrypt_loop.simps [of lib dc] p1 p2 p3)
  have dec: "AEADDecryptor_transform lib d frame = (dc, [p], None)"
    using fd bd loop by (simp add: AEADDecryptor_transform_def Let_def da_def)
  have "dc = (updateNonce (updateNonce d))\<lparr>payloadLength := length p\<rparr>"
    using xd bd by (cases d) (simp add: dc_def db_def da_def updateNonce_def Let_def)
  with dec fr show ?thesis by simp
qed

lemma frame_roundtrip:
  assumes ok: "crypto_ok lib" and sync: "in_sync e d"
    and pos: "0 < length p" and le: "length p \<le> 0xFFFF"
  shows "\<exists>e' d' frame.
           AEADEncryptor_transform lib e p = (e', [frame], None) \<and>
           AEADDecryptor_transform lib d frame = (d', [p], None) \<and> in_sync e' d'"
proof -
  from sync obtain k where k: "key e = Some k" and kd: "key d = Some k"
    by (auto simp: in_sync_def)
  from sync have mi: "AEAD_METHODS (method e) = Some (methodInfo e)"
    and md: "method d = method e" and mid: "methodInfo d = methodInfo e"
    and nd: "nonce d = nonce e" and cd: "chunkId d = chunkId e"
    and fe: "\<not> isFirstChunk e" and fd: "\<not> isFirstChunk d"
    and xd: "expectingLength d" and bd: "buffer d = []"
    by (auto simp: in_sync_def)
  from updateNonce_cong [OF cd nd]
  have u1: "chunkId (updateNonce d) = chunkId (updateNonce e)"
    "nonce (updateNonce d) = nonce (updateNonce e)" by simp_all
  from updateNonce_cong [OF u1]
  have u2: "chunkId (updateNonce (updateNonce d)) = chunkId (updateNonce (updateNonce e))"
    "nonce (updateNonce (updateNonce d)) = nonce (updateNonce (updateNonce e))" by simp_all
  have enc: "AEADEncryptor_transform lib e p =
      (updateNonce (updateNonce e),
       [chunk_frame lib (algorithm_of (method e)) k (tagSize (methodInfo e))
          (nonce e) (nonce (updateNonce e)) p], None)"
    by (rule encrypt_frame [OF fe k mi pos le])
  have dec: "AEADDecryptor_transform lib d
       (chunk_frame lib (algorithm_of (method e)) k (tagSize (methodInfo e))
          (nonce e) (nonce (updateNonce e)) p) =
      ((updateNonce (updateNonce d))\<lparr>payloadLength := length p\<rparr>, [p], None)"
    using decrypt_frame [OF ok fd xd bd kd _ le] mi md mid nd u1 by simp
  have "in_sync (updateNonce (updateNonce e))
          ((updateNonce (updateNonce d))\<lparr>payloadLength := length p\<rparr>)"
    using k kd mi md mid fe fd xd bd u2 by (simp add: in_sync_def)
  with enc dec show ?thesis by blast
qed


section \<open>The round trip\<close>

lemma AEADEncryptor_transform_empty:
  "\<not> isFirstChunk e \<Longrightarrow> AEADEncryptor_transform lib e [] = (e, [], None)"
  by (simp add: AEADEncryptor_transform_def)

lemma sync_run:
  assumes ok: "crypto_ok lib"
  shows "in_sync e d \<Longrightarrow> \<forall>p\<in>set ps. length p \<le> 0xFFFF \<Longrightarrow>
         \<exists>e' outs d' outs'.
           write_all (AEADEncryptor_transform lib) e ps = (e', outs, None) \<and>
           write_all (AEADDecryptor_transform lib) d outs = (d', outs', None) \<and>
           concat outs' = concat ps \<and> in_sync e' d'"
proof (induction ps arbitrary: e d)
  case Nil
  then show ?case by simp
next
  case (Cons p ps)
  show ?case
  proof (cases "p = []")
    case True
    from Cons.prems have "\<not> isFirstChunk e" by (simp add: in_sync_def)
    then have "AEADEncryptor_transform lib e p = (e, [], None)"
      using True by (simp add: AEADEncryptor_transform_empty)
    moreover from Cons.IH [OF Cons.prems(1)] Cons.prems(2)
    obtain e' outs d' outs' where
      "write_all (AEADEncryptor_transform lib) e ps = (e', outs, None)"
      "write_all (AEADDecryptor_transform lib) d outs = (d', outs', None)"
      "concat outs' = concat ps" "in_sync e' d'"
      by auto
    ultimately show ?thesis using True by auto
  next
    case False
    with Cons.prems(2) have "0 < length p" "length p \<le> 0xFFFF" by auto
    from frame_roundtrip [OF ok Cons.prems(1) this]
    obtain e1 d1 frame where
      f: "AEADEncryptor_transform lib e p = (e1, [frame], None)"
         "AEADDecryptor_transform lib d frame = (d1, [p], None)" "in_sync e1 d1"
      by blast
    from Cons.IH [OF f(3)] Cons.prems(2)
    obtain e' outs d' outs' where
      "write_all (AEADEncryptor_transform lib) e1 ps = (e', outs, None)"
      "write_all (AEADDecryptor_transform lib) d1 outs = (d', outs', None)"
      "concat outs' = concat ps" "in_sync e' d'"
      by auto
    with f show ?thesis by auto
  qed
qed

lemma AEADEncryptor_transform_first:
  "isFirstChunk e \<Longrightarrow>
   AEADEncryptor_transform lib e p =
     (case AEADEncryptor_transform lib (started lib e) p of
        (e', out, err) \<Rightarrow> (e', randomBytes lib (saltSize (methodInfo e)) # out, err))"
  by (simp add: AEADEncryptor_transform_def started_def Let_def initializeEncryption_def
        split: sum.splits prod.splits)

lemma write_all_first:
  "isFirstChunk e \<Longrightarrow>
   write_all (AEADEncryptor_transform lib) e (p # ps) =
     (case write_all (AEADEncryptor_transform lib) (started lib e) (p # ps) of
        (e', outs, err) \<Rightarrow> (e', randomBytes lib (saltSize (methodInfo e)) # outs, err))"
  by (simp add: AEADEncryptor_transform_first split: prod.splits option.splits)

lemma salt_in_sync:
  assumes ok: "crypto_ok lib"
    and e: "new_AEADEncryptor m pw = Inr e" and d: "new_AEADDecryptor m pw = Inr d"
  shows "\<exists>d1. AEADDecryptor_transform lib d (randomBytes lib (saltSize (methodInfo e))) =
               (d1, [], None) \<and> in_sync (started lib e) d1"
proof -
  from e obtain mi where mi: "AEAD_METHODS m = Some mi"
    and e': "e = \<lparr>method = m, password = pw, methodInfo = mi, salt = None, key = None,
               nonce = replicate (nonceSize mi) 0, isFirstChunk = True, chunkId = 0\<rparr>"
    by (auto simp: new_AEADEncryptor_def split: option.splits if_splits)
  from d mi have d': "d = \<lparr>method = m, password = pw, methodInfo = mi, salt = None, key = None,
               nonce = replicate (nonceSize mi) 0, isFirstChunk = True, chunkId = 0,
               buffer = [], expectingLength = True, payloadLength = 0\<rparr>"
    by (auto simp: new_AEADDecryptor_def)
  from ok have len: "length (randomBytes lib (saltSize mi)) = saltSize mi"
    by (simp add: crypto_ok_def)
  show ?thesis
    using mi len
    by (simp add: e' d' AEADDecryptor_transform_def Let_def slice_def decrypt_loop_empty
          initializeDecryption_def started_def initializeEncryption_def in_sync_def)
qed

lemma roundtrip_core:
  assumes ok: "crypto_ok lib"
    and e: "new_AEADEncryptor m pw = Inr e" and d: "new_AEADDecryptor m pw = Inr d"
    and le: "\<forall>p\<in>set ps. length p \<le> 0xFFFF"
  shows "\<exists>e' outs. write_all (AEADEncryptor_transform lib) e ps = (e', outs, None) \<and>
           out_err (AEADDecryptor_transform lib d (concat outs)) = (concat ps, None)"
proof (cases ps)
  case Nil
  with new_AEADDecryptor_empty [OF d, of lib] show ?thesis by simp
next
  case (Cons p ps')
  define S where "S = randomBytes lib (saltSize (methodInfo e))"
  from e have fc: "isFirstChunk e"
    by (auto simp: new_AEADEncryptor_def split: option.splits if_splits)
  from salt_in_sync [OF ok e d] obtain d1 where
    d1: "AEADDecryptor_transform lib d S = (d1, [], None)" "in_sync (started lib e) d1"
    by (auto simp: S_def)
  from sync_run [OF ok d1(2) le] obtain e' outs d' outs' where
    r: "write_all (AEADEncryptor_transform lib) (started lib e) ps = (e', outs, None)"
       "write_all (AEADDecryptor_transform lib) d1 outs = (d', outs', None)"
       "concat outs' = concat ps"
    by blast
  have w: "write_all (AEADEncryptor_transform lib) e ps = (e', S # outs, None)"
    using r(1) unfolding Cons write_all_first [OF fc] S_def by simp
  have "out_err (AEADDecryptor_transform lib d (concat (S # outs))) =
        out_err (write_all (AEADDecryptor_transform lib) d (S # outs))"
    using write_all_concat [of lib d S outs] by simp
  also have "\<dots> = (concat ps, None)"
    using d1(1) r(2,3) by (simp add: out_err_def)
  finally show ?thesis using w by blast
qed


lemma xor_twice: "(x XOR p) XOR p = (x::byte)"
  by (simp add: xor.assoc)

lemma toy_crypto_ok: "crypto_ok toy_crypto"
  by (simp add: crypto_ok_def toy_crypto_def Let_def comp_def xor_twice)

lemma AEAD_METHODS_aes128:
  "AEAD_METHODS ''aes-128-gcm'' =
     Some \<lparr>keySize = 16, saltSize = 16, nonceSize = 12, tagSize = 16\<rparr>"
  by (simp add: AEAD_METHODS_def)

lemma fresh_encryptor_new: "new_AEADEncryptor ''aes-128-gcm'' ''pw'' = Inr fresh_encryptor"
  by (simp add: new_AEADEncryptor_def AEAD_METHODS_aes128 fresh_encryptor_def)

lemma fresh_decryptor_new: "new_AEADDecryptor ''aes-128-gcm'' ''pw'' = Inr fresh_decryptor"
  by (simp add: new_AEADDecryptor_def AEAD_METHODS_aes128 fresh_decryptor_def)

lemma encrypt_too_long:
  "\<not> isFirstChunk e \<Longrightarrow> 0xFFFF < length p \<Longrightarrow>
   AEADEncryptor_transform lib e p = (e, [], Some RangeError)"
  by (auto simp: AEADEncryptor_transform_def writeUInt16BE_def)

text \<open>
  C1 (as amended). With primitives that satisfy \<open>crypto_ok\<close>, for every supported method
  and every sequence \<open>ps\<close> of plaintext buffers of at most \<open>0xFFFF\<close> bytes each, the
  encryptor passes no error, and a decryptor built with the same method and password,
  given the concatenation of what the encryptor pushed, pushes exactly the concatenation
  of \<open>ps\<close>, without error.
\<close>

theorem encrypt_decrypt_roundtrip:
  assumes "crypto_ok lib"
    and "new_AEADEncryptor m pw = Inr e" and "new_AEADDecryptor m pw = Inr d"
    and "\<forall>p\<in>set ps. length p \<le> 0xFFFF"
  shows "snd (snd (write_all (AEADEncryptor_transform lib) e ps)) = None \<and>
         out_err (AEADDecryptor_transform lib d
                    (concat (fst (snd (write_all (AEADEncryptor_transform lib) e ps))))) =
           (concat ps, None)"
  using roundtrip_core [OF assms] by auto

theorem encrypt_decrypt_roundtrip_witness:
  "crypto_ok toy_crypto \<and>
   new_AEADEncryptor ''aes-128-gcm'' ''pw'' = Inr fresh_encryptor \<and>
   new_AEADDecryptor ''aes-128-gcm'' ''pw'' = Inr fresh_decryptor \<and>
   out_err (AEADDecryptor_transform toy_crypto fresh_decryptor
              (concat (fst (snd (write_all (AEADEncryptor_transform toy_crypto)
                 fresh_encryptor [[1, 2, 3], [], [4]]))))) = ([1, 2, 3, 4], None)"
  using encrypt_decrypt_roundtrip [OF toy_crypto_ok fresh_encryptor_new fresh_decryptor_new,
          of "[[1, 2, 3], [], [4]]"]
        toy_crypto_ok fresh_encryptor_new fresh_decryptor_new
  by simp

text \<open>
  C1 as stated fails: a single buffer of 65536 bytes makes the encryptor pass a
  RangeError to its callback after it has pushed the salt, and the decryptor, given
  what was pushed, pushes nothing.
\<close>

theorem roundtrip_counterexample:
  "snd (snd (write_all (AEADEncryptor_transform toy_crypto) fresh_encryptor
               [replicate 65536 0])) = Some RangeError \<and>
   out_err (AEADDecryptor_transform toy_crypto fresh_decryptor
              (concat (fst (snd (write_all (AEADEncryptor_transform toy_crypto)
                 fresh_encryptor [replicate 65536 0]))))) \<noteq>
     (concat [replicate 65536 0], None)"
proof -
  have fc: "isFirstChunk fresh_encryptor" by (simp add: fresh_encryptor_def)
  have nf: "\<not> isFirstChunk (started toy_crypto fresh_encryptor)"
    by (simp add: started_def initializeEncryption_def)
  have w: "write_all (AEADEncryptor_transform toy_crypto) fresh_encryptor [replicate 65536 0] =
        (started toy_crypto fresh_encryptor,
         [randomBytes toy_crypto (saltSize (methodInfo fresh_encryptor))], Some RangeError)"
    by (simp add: AEADEncryptor_transform_first [OF fc] encrypt_too_long [OF nf])
  from salt_in_sync [OF toy_crypto_ok fresh_encryptor_new fresh_decryptor_new]
  obtain d1 where "AEADDecryptor_transform toy_crypto fresh_decryptor
      (randomBytes toy_crypto (saltSize (methodInfo fresh_encryptor))) = (d1, [], None)"
    by blast
  with w show ?thesis by (simp add: out_err_def)
qed

section \<open>Running the streams on the small instance\<close>

lemma replicate_16: "replicate 16 x = [x,x,x,x,x,x,x,x,x,x,x,x,x,x,x,x]"
  by (simp add: numeral_eq_Suc)

lemma replicate_12: "replicate 12 x = [x,x,x,x,x,x,x,x,x,x,x,x]"
  by (simp add: numeral_eq_Suc)

lemma toy_key: "deriveKey toy_crypto ''pw'' (replicate 16 7) 16 = replicate 16 232"
  by (simp add: deriveKey_def EVP_BytesToKey_def EVP_round_def toy_crypto_def Buffer_from_def
        copy_def slice_def Let_def replicate_16)

lemma started_fresh: "started toy_crypto fresh_encryptor = running_encryptor"
proof -
  have "randomBytes toy_crypto 16 = replicate 16 7" by (simp add: toy_crypto_def)
  then show ?thesis
    by (simp add: started_def initializeEncryption_def fresh_encryptor_def
          running_encryptor_def Let_def toy_key)
qed

lemma le_bytes_12_1: "le_bytes 12 (Suc 0) = [1, 0, 0, 0, 0, 0, 0, 0, 0, 0, 0, 0]"
  by (subst le_bytes_12) simp

lemma nonce_running_1: "nonce (updateNonce running_encryptor) = [1, 0, 0, 0, 0, 0, 0, 0, 0, 0, 0, 0]"
  by (simp add: updateNonce_small running_encryptor_def fresh_encryptor_def le_bytes_12_1)

lemma toy_seal:
  "createCipheriv toy_crypto alg k iv t p =
     (map (\<lambda>b. b XOR toy_pad k iv) p, replicate t (toy_pad k iv + sum_list p))"
  by (simp add: toy_crypto_def)

lemma toy_open:
  "createDecipheriv toy_crypto alg k iv t tag c =
     (if tag = replicate t (toy_pad k iv + sum_list (map (\<lambda>b. b XOR toy_pad k iv) c))
      then Some (map (\<lambda>b. b XOR toy_pad k iv) c) else None)"
  by (simp add: toy_crypto_def Let_def)

lemma toy_pad_0: "toy_pad (replicate 16 232) (replicate 12 0) = 218"
  by (simp add: toy_pad_def replicate_16 replicate_12)

lemma toy_pad_1: "toy_pad (replicate 16 232) [1, 0, 0, 0, 0, 0, 0, 0, 0, 0, 0, 0] = 219"
  by (simp add: toy_pad_def replicate_16)

lemma frame_123:
  "chunk_frame toy_crypto ''aes-128-gcm'' (replicate 16 232) 16 (replicate 12 0)
     [1, 0, 0, 0, 0, 0, 0, 0, 0, 0, 0, 0] [1, 2, 3] =
   [218, 217] @ replicate 16 221 @ [218, 217, 216] @ replicate 16 225"
  by (simp add: chunk_frame_def toy_seal toy_pad_0 toy_pad_1 lengthBuf_def)

lemma encrypt_123:
  "write_all (AEADEncryptor_transform toy_crypto) fresh_encryptor [[1, 2, 3]] =
     (updateNonce (updateNonce running_encryptor),
      [replicate 16 7, [218, 217] @ replicate 16 221 @ [218, 217, 216] @ replicate 16 225],
      None)"
proof -
  have fc: "isFirstChunk fresh_encryptor" by (simp add: fresh_encryptor_def)
  have r: "\<not> isFirstChunk running_encryptor" "key running_encryptor = Some (replicate 16 232)"
    "method running_encryptor = ''aes-128-gcm''" "nonce running_encryptor = replicate 12 0"
    by (simp_all add: running_encryptor_def fresh_encryptor_def)
  have "AEADEncryptor_transform toy_crypto running_encryptor [1, 2, 3] =
      (updateNonce (updateNonce running_encryptor),
       [[218, 217] @ replicate 16 221 @ [218, 217, 216] @ replicate 16 225], None)"
    using encrypt_frame [OF r(1) r(2), of _ "[1, 2, 3]" toy_crypto] AEAD_METHODS_aes128
    by (simp add: r algorithm_of_def nonce_running_1 frame_123)
  moreover have "randomBytes toy_crypto (saltSize (methodInfo fresh_encryptor)) = replicate 16 7"
    by (simp add: toy_crypto_def fresh_encryptor_def)
  ultimately show ?thesis
    by (simp add: AEADEncryptor_transform_first [OF fc] started_fresh)
qed

lemma decrypt_123:
  "out_err (AEADDecryptor_transform toy_crypto fresh_decryptor
     (replicate 16 7 @ [218, 217] @ replicate 16 221 @ [218, 217, 216] @ replicate 16 225)) =
   ([1, 2, 3], None)"
  using roundtrip_core [OF toy_crypto_ok fresh_encryptor_new fresh_decryptor_new,
          of "[[1, 2, 3]]"]
  unfolding encrypt_123 by simp

text \<open>
  C9. Whatever the bytes of the stream \<open>S\<close> are (a salt followed by complete frames, or
  anything else), and however \<open>S\<close> is cut into successive buffers \<open>bs\<close>, writing the
  buffers one at a time to a new decryptor pushes the same plaintext, concatenated, and
  ends with the same error or none, as writing \<open>S\<close> as one buffer.
\<close>

theorem decryptor_partition_independent:
  assumes "new_AEADDecryptor m pw = Inr d" and "concat bs = S"
  shows "out_err (write_all (AEADDecryptor_transform lib) d bs) =
         out_err (AEADDecryptor_transform lib d S)"
  using write_all_partition [OF assms(1), of lib bs] assms(2) by simp

theorem decryptor_partition_independent_witness:
  "new_AEADDecryptor ''aes-128-gcm'' ''pw'' = Inr fresh_decryptor \<and>
   out_err (write_all (AEADDecryptor_transform toy_crypto) fresh_decryptor
     [replicate 10 7, replicate 6 7 @ [218], 217 # replicate 16 221 @ [218, 217],
      216 # replicate 16 225]) = ([1, 2, 3], None)"
proof -
  have S: "concat [replicate 10 7, replicate 6 7 @ [218], 217 # replicate 16 221 @ [218, 217],
      216 # replicate 16 225] =
     replicate 16 7 @ [218, 217] @ replicate 16 221 @ [218, 217, 216] @ replicate 16 (225::byte)"
    by (simp add: numeral_eq_Suc)
  from decryptor_partition_independent [OF fresh_decryptor_new S, of toy_crypto]
  show ?thesis
    unfolding decrypt_123 using fresh_decryptor_new by simp
qed

section \<open>The encryptor does not split its input\<close>

lemma running_encryptor_fields:
  "\<not> isFirstChunk running_encryptor" "key running_encryptor = Some (replicate 16 232)"
  "method running_encryptor = ''aes-128-gcm''" "nonce running_encryptor = replicate 12 0"
  "chunkId running_encryptor = 0"
  by (simp_all add: running_encryptor_def fresh_encryptor_def)

lemma running_decryptor_fields:
  "\<not> isFirstChunk running_decryptor" "key running_decryptor = Some (replicate 16 232)"
  "method running_decryptor = ''aes-128-gcm''" "nonce running_decryptor = replicate 12 0"
  "chunkId running_decryptor = 0" "expectingLength running_decryptor"
  "buffer running_decryptor = []"
  "methodInfo running_decryptor = \<lparr>keySize = 16, saltSize = 16, nonceSize = 12, tagSize = 16\<rparr>"
  by (simp_all add: running_decryptor_def fresh_decryptor_def)

lemma nonce_running_decryptor_1:
  "nonce (updateNonce running_decryptor) = [1, 0, 0, 0, 0, 0, 0, 0, 0, 0, 0, 0]"
  by (simp add: updateNonce_small running_decryptor_fields le_bytes_12_1)

text \<open>
  C2 (as amended). The encryptor does not split: for every input buffer \<open>P\<close> with
  \<open>0 < len(P) \<le> 0xFFFF\<close> (so also beyond \<open>0x3FFF\<close>), written to an encryptor that has sent
  its salt, \<open>_transform\<close> pushes exactly one buffer, a single frame whose length field
  seals \<open>len(P)\<close> and whose payload seals all of \<open>P\<close>, under two consecutive nonces, and
  passes no error.
\<close>

theorem encryptor_emits_one_frame:
  assumes "\<not> isFirstChunk e" and "key e = Some k" and "AEAD_METHODS (method e) = Some mi"
    and "0 < length P" and "length P \<le> 0xFFFF"
  shows "AEADEncryptor_transform lib e P =
           (updateNonce (updateNonce e),
            [chunk_frame lib (algorithm_of (method e)) k (tagSize mi)
               (nonce e) (nonce (updateNonce e)) P],
            None)"
  using assms by (rule encrypt_frame)

theorem encryptor_emits_one_frame_witness:
  "AEADEncryptor_transform toy_crypto running_encryptor [1, 2, 3] =
     (updateNonce (updateNonce running_encryptor),
      [[218, 217] @ replicate 16 221 @ [218, 217, 216] @ replicate 16 225], None)"
  using encryptor_emits_one_frame [OF running_encryptor_fields(1,2), of _ "[1, 2, 3]" toy_crypto]
    AEAD_METHODS_aes128
  by (simp add: running_encryptor_fields algorithm_of_def nonce_running_1 frame_123)

lemma chunk_frame_length:
  "crypto_ok lib \<Longrightarrow> length (chunk_frame lib alg k t n1 n2 p) = 2 + t + length p + t"
  by (simp add: chunk_frame_def crypto_ok_def lengthBuf_def)

lemma spec_sub_chunks_16384:
  "spec_sub_chunks (replicate 16384 0) = [replicate 16383 0, [0]]"
proof -
  have "spec_sub_chunks (replicate 16384 0) = replicate 16383 0 # spec_sub_chunks (replicate 1 0)"
    by (subst spec_sub_chunks.simps) simp
  also have "spec_sub_chunks (replicate 1 0) = [0] # spec_sub_chunks []"
    by (subst spec_sub_chunks.simps) simp
  also have "spec_sub_chunks [] = []"
    by (subst spec_sub_chunks.simps) simp
  finally show ?thesis .
qed

text \<open>
  C2 as stated fails: for a buffer of 16384 bytes the specification has two sub-chunks,
  of 16383 bytes and of one byte, and a frame for each; the encryptor pushes one buffer,
  a single frame of \<open>2 + 16 + 16384 + 16\<close> bytes, which is not what writing the two
  sub-chunks one after the other pushes.
\<close>

theorem sub_chunk_counterexample:
  "spec_sub_chunks (replicate 16384 0) = [replicate 16383 0, [0]] \<and>
   length (fst (snd (AEADEncryptor_transform toy_crypto running_encryptor
                       (replicate 16384 0)))) = 1 \<and>
   length (concat (fst (snd (AEADEncryptor_transform toy_crypto running_encryptor
                               (replicate 16384 0))))) = 2 + 16 + 16384 + 16 \<and>
   out_err (AEADEncryptor_transform toy_crypto running_encryptor (replicate 16384 0)) \<noteq>
   out_err (write_all (AEADEncryptor_transform toy_crypto) running_encryptor
              (spec_sub_chunks (replicate 16384 0)))"
proof -
  note f = running_encryptor_fields
  define e2 where "e2 = updateNonce (updateNonce running_encryptor)"
  have e2f: "\<not> isFirstChunk e2" "key e2 = Some (replicate 16 232)"
    "method e2 = ''aes-128-gcm''"
    by (simp_all add: e2_def f)
  have one: "AEADEncryptor_transform toy_crypto running_encryptor (replicate 16384 0) =
     (e2, [chunk_frame toy_crypto ''aes-128-gcm'' (replicate 16 232) 16 (nonce running_encryptor)
             (nonce (updateNonce running_encryptor)) (replicate 16384 0)], None)"
    using encrypt_frame [OF f(1,2), of _ "replicate 16384 0" toy_crypto] AEAD_METHODS_aes128
    by (simp add: f algorithm_of_def e2_def)
  have a: "AEADEncryptor_transform toy_crypto running_encryptor (replicate 16383 0) =
     (e2, [chunk_frame toy_crypto ''aes-128-gcm'' (replicate 16 232) 16 (nonce running_encryptor)
             (nonce (updateNonce running_encryptor)) (replicate 16383 0)], None)"
    using encrypt_frame [OF f(1,2), of _ "replicate 16383 0" toy_crypto] AEAD_METHODS_aes128
    by (simp add: f algorithm_of_def e2_def)
  have b: "AEADEncryptor_transform toy_crypto e2 [0] =
     (updateNonce (updateNonce e2),
      [chunk_frame toy_crypto ''aes-128-gcm'' (replicate 16 232) 16 (nonce e2)
             (nonce (updateNonce e2)) [0]], None)"
    using encrypt_frame [OF e2f(1,2), of _ "[0]" toy_crypto] AEAD_METHODS_aes128
    by (simp add: e2f algorithm_of_def)
  have two: "write_all (AEADEncryptor_transform toy_crypto) running_encryptor
               [replicate 16383 0, [0]] =
     (updateNonce (updateNonce e2),
      [chunk_frame toy_crypto ''aes-128-gcm'' (replicate 16 232) 16 (nonce running_encryptor)
             (nonce (updateNonce running_encryptor)) (replicate 16383 0),
       chunk_frame toy_crypto ''aes-128-gcm'' (replicate 16 232) 16 (nonce e2)
             (nonce (updateNonce e2)) [0]], None)"
    by (simp add: a b)
  have "length (fst (out_err (AEADEncryptor_transform toy_crypto running_encryptor
                                (replicate 16384 0)))) = 16418"
    by (simp add: one out_err_def chunk_frame_length [OF toy_crypto_ok])
  moreover have "length (fst (out_err (write_all (AEADEncryptor_transform toy_crypto)
                   running_encryptor [replicate 16383 0, [0]]))) = 16452"
    unfolding two by (simp add: out_err_def chunk_frame_length [OF toy_crypto_ok])
  ultimately have "out_err (AEADEncryptor_transform toy_crypto running_encryptor
                              (replicate 16384 0)) \<noteq>
      out_err (write_all (AEADEncryptor_transform toy_crypto) running_encryptor
                 [replicate 16383 0, [0]])"
    by auto
  then show ?thesis
    unfolding spec_sub_chunks_16384
    by (simp add: one chunk_frame_length [OF toy_crypto_ok])
qed

section \<open>The decryptor does not check the range of a length\<close>

lemma decrypt_pass_length:
  assumes "expectingLength s" and "key s = Some k"
    and "AEAD_METHODS (method s) = Some (methodInfo s)"
    and "buffer s = el @ lt @ rest" and "length el = 2"
    and "length lt = tagSize (methodInfo s)"
  shows "decrypt_pass lib s =
     (case createDecipheriv lib (algorithm_of (method s)) k (nonce s)
             (tagSize (methodInfo s)) lt el of
        None \<Rightarrow> Fail (Error ''AEAD authentication failed for length'')
      | Some lb \<Rightarrow>
          (case readUInt16BE lb of
             None \<Rightarrow> Fail (Error ''AEAD authentication failed for length'')
           | Some L \<Rightarrow>
               Next ((updateNonce (s\<lparr>payloadLength := L\<rparr>))
                       \<lparr>expectingLength := False, buffer := rest\<rparr>) []))"
proof -
  define t where "t = tagSize (methodInfo s)"
  have s1: "slice (el @ lt @ rest) 0 2 = el"
    and s2: "slice (el @ lt @ rest) 2 (Suc (Suc t)) = lt"
    and s3: "drop (Suc (Suc t)) (el @ lt @ rest) = rest"
    using assms(5,6) by (simp_all add: slice_def t_def)
  from assms(5) have ne: "el \<noteq> []" by auto
  show ?thesis
    using assms(1-4) ne assms(5,6)
    by (simp add: decrypt_pass_def Let_def createAEADCipher_decrypt_def t_def [symmetric]
          s1 s2 s3 split: option.splits)
qed

lemma decrypt_pass_payload:
  assumes "\<not> expectingLength s" and "key s = Some k"
    and "AEAD_METHODS (method s) = Some (methodInfo s)"
    and "buffer s = ep @ pt @ rest" and "length ep = payloadLength s"
    and "length pt = tagSize (methodInfo s)"
  shows "decrypt_pass lib s =
     (case createDecipheriv lib (algorithm_of (method s)) k (nonce s)
             (tagSize (methodInfo s)) pt ep of
        None \<Rightarrow> Fail (Error ''AEAD authentication failed for payload'')
      | Some p \<Rightarrow>
          Next ((updateNonce s)\<lparr>expectingLength := True, buffer := rest\<rparr>) [p])"
proof -
  define t where "t = tagSize (methodInfo s)"
  define n where "n = payloadLength s"
  from AEAD_METHODS_sizes [OF assms(3)] have tpos: "0 < t" by (simp add: t_def)
  with assms(6) have ne: "pt \<noteq> []" by (auto simp: t_def)
  have s1: "slice (ep @ pt @ rest) 0 n = ep"
    and s2: "slice (ep @ pt @ rest) n (n + t) = pt"
    and s3: "drop (n + t) (ep @ pt @ rest) = rest"
    using assms(5,6) by (simp_all add: slice_def t_def n_def)
  show ?thesis
    using assms(1-4) ne assms(5,6) tpos
    by (simp add: decrypt_pass_def Let_def createAEADCipher_decrypt_def t_def [symmetric]
          n_def [symmetric] s1 s2 s3 split: option.splits)
qed

lemma decrypt_pass_payload_short:
  "\<not> expectingLength s \<Longrightarrow>
   length (buffer s) < payloadLength s + tagSize (methodInfo s) \<Longrightarrow>
   decrypt_pass lib s = Break"
  by (simp add: decrypt_pass_def Let_def)

lemma readUInt16BE_range: "readUInt16BE lb = Some L \<Longrightarrow> L \<le> 0xFFFF"
proof -
  assume a: "readUInt16BE lb = Some L"
  then obtain b0 b1 bs where "lb = b0 # b1 # bs"
    by (auto simp: readUInt16BE_def split: list.splits)
  with a have L: "L = unat b0 * 256 + unat b1" by (simp add: readUInt16BE_def)
  have "unat b0 < 256" "unat b1 < 256"
    using unsigned_less [of b0] unsigned_less [of b1] by simp_all
  with L show ?thesis by simp
qed


lemma decrypt_loop_payload_short:
  "\<not> expectingLength s \<Longrightarrow>
   length (buffer s) < payloadLength s + tagSize (methodInfo s) \<Longrightarrow>
   decrypt_loop lib s = (s, [], None)"
  by (simp add: decrypt_loop.simps [of lib s] decrypt_pass_payload_short)

lemma decrypt_loop_payload:
  assumes "\<not> expectingLength s" and "key s = Some k"
    and "AEAD_METHODS (method s) = Some (methodInfo s)"
    and "buffer s = ep @ pt @ rest" and "length ep = payloadLength s"
    and "length pt = tagSize (methodInfo s)"
  shows "decrypt_loop lib s =
     (case createDecipheriv lib (algorithm_of (method s)) k (nonce s)
             (tagSize (methodInfo s)) pt ep of
        None \<Rightarrow> (s, [], Some (Error ''AEAD authentication failed for payload''))
      | Some p \<Rightarrow>
          (case decrypt_loop lib ((updateNonce s)\<lparr>expectingLength := True, buffer := rest\<rparr>) of
             (d', out, e) \<Rightarrow> (d', p # out, e)))"
  by (simp add: decrypt_loop.simps [of lib s] decrypt_pass_payload [OF assms]
        split: option.splits)

lemma AEADDecryptor_transform_length:
  assumes fd: "\<not> isFirstChunk d" and xd: "expectingLength d"
    and kd: "key d = Some k" and mi: "AEAD_METHODS (method d) = Some (methodInfo d)"
    and bc: "buffer d @ c = el @ lt @ rest" and el: "length el = 2"
    and lt: "length lt = tagSize (methodInfo d)"
  shows "AEADDecryptor_transform lib d c =
     (case createDecipheriv lib (algorithm_of (method d)) k (nonce d)
             (tagSize (methodInfo d)) lt el of
        None \<Rightarrow> (d\<lparr>buffer := buffer d @ c\<rparr>, [],
                 Some (Error ''AEAD authentication failed for length''))
      | Some lb \<Rightarrow>
          (case readUInt16BE lb of
             None \<Rightarrow> (d\<lparr>buffer := buffer d @ c\<rparr>, [],
                      Some (Error ''AEAD authentication failed for length''))
           | Some L \<Rightarrow>
               decrypt_loop lib
                 ((updateNonce d)\<lparr>payloadLength := L, expectingLength := False,
                                  buffer := rest\<rparr>)))"
proof -
  define s0 where "s0 = d\<lparr>buffer := buffer d @ c\<rparr>"
  have tr: "AEADDecryptor_transform lib d c = decrypt_loop lib s0"
    using fd by (simp add: AEADDecryptor_transform_def Let_def s0_def)
  have f0: "expectingLength s0" "key s0 = Some k"
    "AEAD_METHODS (method s0) = Some (methodInfo s0)" "buffer s0 = el @ lt @ rest"
    "length lt = tagSize (methodInfo s0)"
    using xd kd mi bc lt by (simp_all add: s0_def)
  have g0: "nonce s0 = nonce d" "method s0 = method d" "methodInfo s0 = methodInfo d"
    by (simp_all add: s0_def)
  have e1: "(updateNonce (s0\<lparr>payloadLength := L\<rparr>))\<lparr>expectingLength := False, buffer := rest\<rparr> =
            (updateNonce d)\<lparr>payloadLength := L, expectingLength := False, buffer := rest\<rparr>"
    for L
    by (cases d) (simp add: s0_def updateNonce_def Let_def)
  show ?thesis
    unfolding tr s0_def [symmetric]
    by (simp add: decrypt_loop.simps [of lib s0] decrypt_pass_length [OF f0(1-4) el f0(5)]
          g0 e1 split: option.splits prod.splits)
qed


text \<open>
  C3 (as amended). The decryptor applies no range check to the decrypted length. Take a
  decryptor that has read its salt and expects a length field, and let its carry buffer
  and the chunk written to it together hold a 2-byte field \<open>el\<close>, a tag \<open>lt\<close> and the
  bytes \<open>rest\<close> behind them.
  \<^item> If the field opens to a buffer that reads as \<open>L\<close>, then, whatever the value of \<open>L\<close>
    (it is at most \<open>0xFFFF\<close>; 0 and the values above \<open>0x3FFF\<close> are treated like all
    others), the decryptor takes \<open>L\<close> as the payload length, steps its nonce and goes
    on with the payload: when \<open>rest\<close> starts with \<open>L\<close> bytes and a tag that open to \<open>p\<close>,
    then \<open>p\<close> is pushed and the loop goes on with what follows, any error coming from
    there;
    when they do not open, the error is the one of the payload and nothing is pushed;
    when \<open>rest\<close> is shorter than \<open>L\<close> bytes and a tag, the decryptor waits, without
    error.
  \<^item> The length field itself fails exactly when the decipher throws or returns fewer
    than two bytes; nothing is pushed then, and the state is not changed beyond the
    carry buffer.
\<close>

theorem decryptor_accepts_any_length:
  assumes "\<not> isFirstChunk d" and "expectingLength d"
    and "key d = Some k" and "AEAD_METHODS (method d) = Some (methodInfo d)"
    and "alg = algorithm_of (method d)" and "t = tagSize (methodInfo d)"
    and "buffer d @ c = el @ lt @ rest" and "length el = 2" and "length lt = t"
  shows
    "(createDecipheriv lib alg k (nonce d) t lt el = Some lb \<and> readUInt16BE lb = Some L \<longrightarrow>
        L \<le> 0xFFFF \<and>
        AEADDecryptor_transform lib d c =
          decrypt_loop lib
            ((updateNonce d)\<lparr>payloadLength := L, expectingLength := False, buffer := rest\<rparr>) \<and>
        (rest = ep @ pt @ rest' \<and> length ep = L \<and> length pt = t \<and>
         createDecipheriv lib alg k (nonce (updateNonce d)) t pt ep = Some p \<longrightarrow>
           AEADDecryptor_transform lib d c =
             (case decrypt_loop lib
                     ((updateNonce (updateNonce d))\<lparr>payloadLength := L, buffer := rest'\<rparr>) of
                (d', out, e) \<Rightarrow> (d', p # out, e))) \<and>
        (rest = ep @ pt @ rest' \<and> length ep = L \<and> length pt = t \<and>
         createDecipheriv lib alg k (nonce (updateNonce d)) t pt ep = None \<longrightarrow>
           AEADDecryptor_transform lib d c =
             ((updateNonce d)\<lparr>payloadLength := L, expectingLength := False, buffer := rest\<rparr>,
              [], Some (Error ''AEAD authentication failed for payload''))) \<and>
        (length rest < L + t \<longrightarrow>
           AEADDecryptor_transform lib d c =
             ((updateNonce d)\<lparr>payloadLength := L, expectingLength := False, buffer := rest\<rparr>,
              [], None))) \<and>
     (createDecipheriv lib alg k (nonce d) t lt el = None \<or>
      (\<exists>lb. createDecipheriv lib alg k (nonce d) t lt el = Some lb \<and>
            readUInt16BE lb = None) \<longrightarrow>
        AEADDecryptor_transform lib d c =
          (d\<lparr>buffer := buffer d @ c\<rparr>, [],
           Some (Error ''AEAD authentication failed for length'')))"
proof -
  let ?open = "createDecipheriv lib (algorithm_of (method d)) k (nonce d)
                 (tagSize (methodInfo d)) lt el"
  let ?s1 = "(updateNonce d)\<lparr>payloadLength := L, expectingLength := False, buffer := rest\<rparr>"
  let ?pay = "createDecipheriv lib (algorithm_of (method d)) k (nonce (updateNonce d))
                (tagSize (methodInfo d)) pt ep"
  note T = AEADDecryptor_transform_length [OF assms(1-4) assms(7,8)
             assms(9) [unfolded assms(6)], of lib]
  have fail: "AEADDecryptor_transform lib d c =
                (d\<lparr>buffer := buffer d @ c\<rparr>, [],
                 Some (Error ''AEAD authentication failed for length''))"
    if "?open = None \<or> (\<exists>lb. ?open = Some lb \<and> readUInt16BE lb = None)"
    using that by (auto simp: T)
  have next1: "AEADDecryptor_transform lib d c = decrypt_loop lib ?s1"
    if "?open = Some lb" "readUInt16BE lb = Some L"
    using that by (simp add: T)
  have f1: "\<not> expectingLength ?s1" "key ?s1 = Some k"
    "AEAD_METHODS (method ?s1) = Some (methodInfo ?s1)" "buffer ?s1 = rest"
    "payloadLength ?s1 = L" "nonce ?s1 = nonce (updateNonce d)"
    "method ?s1 = method d" "methodInfo ?s1 = methodInfo d"
    using assms(3,4) by simp_all
  have wait: "decrypt_loop lib ?s1 = (?s1, [], None)"
    if "length rest < L + tagSize (methodInfo d)"
    using that by (intro decrypt_loop_payload_short) simp_all
  have e2: "(updateNonce ?s1)\<lparr>expectingLength := True, buffer := rest'\<rparr> =
            (updateNonce (updateNonce d))\<lparr>payloadLength := L, buffer := rest'\<rparr>"
    using assms(2) by (cases d) (simp add: updateNonce_def Let_def)
  have pay: "decrypt_loop lib ?s1 =
     (case ?pay of
        None \<Rightarrow> (?s1, [], Some (Error ''AEAD authentication failed for payload''))
      | Some p \<Rightarrow>
          (case decrypt_loop lib
                  ((updateNonce (updateNonce d))\<lparr>payloadLength := L, buffer := rest'\<rparr>) of
             (d', out, e) \<Rightarrow> (d', p # out, e)))"
    if r: "rest = ep @ pt @ rest'" "length ep = L" "length pt = tagSize (methodInfo d)"
  proof -
    have b: "buffer ?s1 = ep @ pt @ rest'" using r(1) by simp
    have l: "length ep = payloadLength ?s1" using r(2) by simp
    have g: "length pt = tagSize (methodInfo ?s1)" using r(3) by simp
    from decrypt_loop_payload [OF f1(1-3) b l g, of lib]
    show ?thesis unfolding f1(6-8) e2 .
  qed
  show ?thesis
    unfolding assms(5,6)
    using fail next1 wait pay readUInt16BE_range [of lb L]
    by auto
qed

lemma running_decryptor_method:
  "AEAD_METHODS (method running_decryptor) = Some (methodInfo running_decryptor)"
  by (simp add: running_decryptor_fields AEAD_METHODS_aes128)

lemma frame_16384:
  "chunk_frame toy_crypto ''aes-128-gcm'' (replicate 16 232) 16 (replicate 12 0)
     [1, 0, 0, 0, 0, 0, 0, 0, 0, 0, 0, 0] (replicate 16384 0) =
   [154, 218] @ replicate 16 26 @ replicate 16384 219 @ replicate 16 219"
  by (simp add: chunk_frame_def toy_seal toy_pad_0 toy_pad_1 lengthBuf_def sum_list_replicate)

lemma frame_empty:
  "chunk_frame toy_crypto ''aes-128-gcm'' (replicate 16 232) 16 (replicate 12 0)
     [1, 0, 0, 0, 0, 0, 0, 0, 0, 0, 0, 0] [] =
   [218, 218] @ replicate 16 218 @ replicate 16 219"
  by (simp add: chunk_frame_def toy_seal toy_pad_0 toy_pad_1 lengthBuf_def)

lemma toy_open_length_16384:
  "createDecipheriv toy_crypto ''aes-128-gcm'' (replicate 16 232) (nonce running_decryptor) 16
     (replicate 16 26) [154, 218] = Some [0x40, 0x00]"
  by (simp add: toy_open running_decryptor_fields toy_pad_0)

lemma toy_open_payload_16384:
  "createDecipheriv toy_crypto ''aes-128-gcm'' (replicate 16 232)
     (nonce (updateNonce running_decryptor)) 16 (replicate 16 219) (replicate 16384 219) =
   Some (replicate 16384 0)"
  by (simp add: toy_open nonce_running_decryptor_1 toy_pad_1 sum_list_replicate)

lemma toy_open_length_tampered:
  "createDecipheriv toy_crypto ''aes-128-gcm'' (replicate 16 232) (nonce running_decryptor) 16
     (replicate 16 27) [154, 218] = None"
  by (simp add: toy_open running_decryptor_fields toy_pad_0)

theorem decryptor_accepts_any_length_witness:
  "AEADDecryptor_transform toy_crypto running_decryptor
     ([154, 218] @ replicate 16 26 @ replicate 16384 219 @ replicate 16 219) =
   ((updateNonce (updateNonce running_decryptor))\<lparr>payloadLength := 16384, buffer := []\<rparr>,
    [replicate 16384 0], None) \<and>
   AEADDecryptor_transform toy_crypto running_decryptor ([154, 218] @ replicate 16 27) =
   (running_decryptor\<lparr>buffer := [154, 218] @ replicate 16 27\<rparr>, [],
    Some (Error ''AEAD authentication failed for length''))"
proof -
  have h: "\<not> isFirstChunk running_decryptor" "expectingLength running_decryptor"
    "key running_decryptor = Some (replicate 16 232)"
    "AEAD_METHODS (method running_decryptor) = Some (methodInfo running_decryptor)"
    "''aes-128-gcm'' = algorithm_of (method running_decryptor)"
    "16 = tagSize (methodInfo running_decryptor)"
    by (simp_all add: running_decryptor_fields AEAD_METHODS_aes128 algorithm_of_def)
  have b1: "buffer running_decryptor @
              ([154, 218] @ replicate 16 26 @ replicate 16384 219 @ replicate 16 219) =
            [154, 218] @ replicate 16 26 @ (replicate 16384 219 @ replicate 16 219 @ [])"
    and b2: "buffer running_decryptor @ ([154, 218] @ replicate 16 27) =
             [154, 218] @ replicate 16 27 @ []"
    by (simp_all add: running_decryptor_fields)
  have l: "length [154, 218 :: byte] = 2" "length (replicate 16 (26 :: byte)) = 16"
    "length (replicate 16 (27 :: byte)) = 16"
    "length (replicate 16384 (219 :: byte)) = 16384" "length (replicate 16 (219 :: byte)) = 16"
    by simp_all
  have r1: "readUInt16BE [0x40, 0x00] = Some 16384"
    by (simp add: readUInt16BE_def)
  have e: "decrypt_loop toy_crypto
             ((updateNonce (updateNonce running_decryptor))
                \<lparr>payloadLength := 16384, buffer := []\<rparr>) =
           ((updateNonce (updateNonce running_decryptor))
              \<lparr>payloadLength := 16384, buffer := []\<rparr>, [], None)"
    by (rule decrypt_loop_empty) simp
  from decryptor_accepts_any_length [OF h b1 l(1,2), where lib = toy_crypto
         and lb = "[0x40, 0x00]" and L = 16384 and ep = "replicate 16384 219"
         and pt = "replicate 16 219" and rest' = "[]" and p = "replicate 16384 0"]
       toy_open_length_16384 toy_open_payload_16384 r1 l(4,5)
  have "AEADDecryptor_transform toy_crypto running_decryptor
          ([154, 218] @ replicate 16 26 @ replicate 16384 219 @ replicate 16 219) =
        (case decrypt_loop toy_crypto
                ((updateNonce (updateNonce running_decryptor))
                   \<lparr>payloadLength := 16384, buffer := []\<rparr>) of
           (d', out, e) \<Rightarrow> (d', replicate 16384 0 # out, e))"
    by blast
  then have A: "AEADDecryptor_transform toy_crypto running_decryptor
     ([154, 218] @ replicate 16 26 @ replicate 16384 219 @ replicate 16 219) =
   ((updateNonce (updateNonce running_decryptor))\<lparr>payloadLength := 16384, buffer := []\<rparr>,
    [replicate 16384 0], None)"
    unfolding e by simp
  from decryptor_accepts_any_length [OF h b2 l(1,3), where lib = toy_crypto]
       toy_open_length_tampered
  have "AEADDecryptor_transform toy_crypto running_decryptor ([154, 218] @ replicate 16 27) =
   (running_decryptor\<lparr>buffer := buffer running_decryptor @ ([154, 218] @ replicate 16 27)\<rparr>,
    [], Some (Error ''AEAD authentication failed for length''))"
    by blast
  then have B: "AEADDecryptor_transform toy_crypto running_decryptor
                  ([154, 218] @ replicate 16 27) =
   (running_decryptor\<lparr>buffer := [154, 218] @ replicate 16 27\<rparr>, [],
    Some (Error ''AEAD authentication failed for length''))"
    by (simp add: running_decryptor_fields)
  from A B show ?thesis by (rule conjI)
qed

text \<open>
  C3 as stated fails. A length field that opens to the bytes \<open>0x40 0x00\<close>, that is
  16384, beyond \<open>0x3FFF\<close>, is accepted, and the 16384 bytes of the payload are pushed
  without error; a length field that opens to 0 is accepted too, and an empty buffer
  is pushed without error.
\<close>

theorem length_range_counterexample:
  "createAEADCipher_decrypt toy_crypto ''aes-128-gcm'' (Some (replicate 16 232))
     (replicate 12 0) (replicate 16 26) [154, 218] = Inr (Some [0x40, 0x00]) \<and>
   readUInt16BE [0x40, 0x00] = Some 16384 \<and>
   snd (AEADDecryptor_transform toy_crypto running_decryptor
          ([154, 218] @ replicate 16 26 @ replicate 16384 219 @ replicate 16 219)) =
     ([replicate 16384 0], None) \<and>
   createAEADCipher_decrypt toy_crypto ''aes-128-gcm'' (Some (replicate 16 232))
     (replicate 12 0) (replicate 16 218) [218, 218] = Inr (Some [0x00, 0x00]) \<and>
   snd (AEADDecryptor_transform toy_crypto running_decryptor
          ([218, 218] @ replicate 16 218 @ replicate 16 219)) = ([[]], None)"
proof -
  have a: "createAEADCipher_decrypt toy_crypto ''aes-128-gcm'' (Some (replicate 16 232))
     (replicate 12 0) (replicate 16 26) [154, 218] = Inr (Some [0x40, 0x00])"
    by (simp add: createAEADCipher_decrypt_def AEAD_METHODS_aes128 toy_open toy_pad_0)
  have b: "readUInt16BE [0x40, 0x00] = Some 16384"
    by (simp add: readUInt16BE_def)
  have c: "AEADDecryptor_transform toy_crypto running_decryptor
          ([154, 218] @ replicate 16 26 @ replicate 16384 219 @ replicate 16 219) =
     ((updateNonce (updateNonce running_decryptor))\<lparr>payloadLength := 16384\<rparr>,
      [replicate 16384 0], None)"
    using decrypt_frame [OF toy_crypto_ok running_decryptor_fields(1,6,7,2)
          running_decryptor_method, of "replicate 16384 0"]
    by (simp add: running_decryptor_fields algorithm_of_def nonce_running_decryptor_1
          frame_16384)
  have d: "createAEADCipher_decrypt toy_crypto ''aes-128-gcm'' (Some (replicate 16 232))
     (replicate 12 0) (replicate 16 218) [218, 218] = Inr (Some [0x00, 0x00])"
    by (simp add: createAEADCipher_decrypt_def AEAD_METHODS_aes128 toy_open toy_pad_0)
  have e: "AEADDecryptor_transform toy_crypto running_decryptor
          ([218, 218] @ replicate 16 218 @ replicate 16 219) =
     ((updateNonce (updateNonce running_decryptor))\<lparr>payloadLength := 0\<rparr>, [[]], None)"
    using decrypt_frame [OF toy_crypto_ok running_decryptor_fields(1,6,7,2)
          running_decryptor_method, of "[]"]
    by (simp add: running_decryptor_fields algorithm_of_def nonce_running_decryptor_1
          frame_empty)
  from a b c d e show ?thesis by simp
qed

section \<open>Where an error leaves the decryptor\<close>

lemma decrypt_loop_error_state:
  "decrypt_loop lib s = (s', out, Some e) \<Longrightarrow> decrypt_pass lib s' = Fail e"
proof (induction lib s arbitrary: s' out rule: decrypt_loop.induct)
  case (1 lib s)
  show ?case
  proof (cases "decrypt_pass lib s")
    case Break
    with "1.prems" show ?thesis by (simp add: decrypt_loop.simps [of lib s])
  next
    case (Fail x)
    with "1.prems" show ?thesis by (simp add: decrypt_loop.simps [of lib s])
  next
    case (Next t out1)
    obtain t' out2 e2 where r: "decrypt_loop lib t = (t', out2, e2)"
      by (cases "decrypt_loop lib t") auto
    from "1.prems" Next r have "s' = t'" "e2 = Some e"
      by (simp_all add: decrypt_loop.simps [of lib s])
    with "1.IH" [OF Next] r show ?thesis by simp
  qed
qed

lemma slice_take_append:
  "e \<le> n \<Longrightarrow> n \<le> length b \<Longrightarrow> slice (take n b @ x) a e = slice b a e"
  by (simp add: slice_def min_def take_drop)

lemma decrypt_pass_length_Next:
  assumes "decrypt_pass lib s = Next t out" and "expectingLength s"
  shows "\<exists>lb len. 2 + tagSize (methodInfo s) \<le> length (buffer s) \<and>
           createAEADCipher_decrypt lib (method s) (key s) (nonce s)
             (slice (buffer s) 2 (2 + tagSize (methodInfo s))) (slice (buffer s) 0 2) =
               Inr (Some lb) \<and>
           readUInt16BE lb = Some len \<and> out = [] \<and>
           t = (updateNonce (s\<lparr>payloadLength := len\<rparr>))
                 \<lparr>expectingLength := False,
                  buffer := drop (2 + tagSize (methodInfo s)) (buffer s)\<rparr>"
  using assms
  by (simp add: decrypt_pass_def Let_def split: if_splits sum.splits option.splits)

lemma decrypt_pass_payload_Next:
  assumes "decrypt_pass lib s = Next t out" and "\<not> expectingLength s"
  shows "\<exists>payload. buffer s \<noteq> [] \<and>
           payloadLength s + tagSize (methodInfo s) \<le> length (buffer s) \<and>
           createAEADCipher_decrypt lib (method s) (key s) (nonce s)
             (slice (buffer s) (payloadLength s) (payloadLength s + tagSize (methodInfo s)))
             (slice (buffer s) 0 (payloadLength s)) = Inr (Some payload) \<and>
           out = [payload] \<and>
           t = (updateNonce s)
                 \<lparr>expectingLength := True,
                  buffer := drop (payloadLength s + tagSize (methodInfo s)) (buffer s)\<rparr>"
  using assms
  by (simp add: decrypt_pass_def Let_def split: if_splits sum.splits option.splits)

lemma decrypt_pass_methodInfo:
  "decrypt_pass lib s = Next t out \<Longrightarrow> methodInfo t = methodInfo s"
  by (auto simp: decrypt_pass_def Let_def split: if_splits sum.splits option.splits)

lemma decrypt_pass_Next_prefix:
  assumes "decrypt_pass lib s = Next t out" and tpos: "0 < tagSize (methodInfo s)"
  shows "\<exists>c. buffer s = c @ buffer t \<and>
             (\<forall>x. decrypt_pass lib (s\<lparr>buffer := c @ x\<rparr>) = Next (t\<lparr>buffer := x\<rparr>) out)"
proof (cases "expectingLength s")
  case True
  define n where "n = 2 + tagSize (methodInfo s)"
  from decrypt_pass_length_Next [OF assms(1) True] obtain lb len where
    f: "n \<le> length (buffer s)"
       "createAEADCipher_decrypt lib (method s) (key s) (nonce s)
          (slice (buffer s) 2 n) (slice (buffer s) 0 2) = Inr (Some lb)"
       "readUInt16BE lb = Some len" "out = []"
       "t = (updateNonce (s\<lparr>payloadLength := len\<rparr>))
                 \<lparr>expectingLength := False, buffer := drop n (buffer s)\<rparr>"
    unfolding n_def by blast
  have n2: "2 \<le> n" by (simp add: n_def)
  have "decrypt_pass lib (s\<lparr>buffer := take n (buffer s) @ x\<rparr>) = Next (t\<lparr>buffer := x\<rparr>) out" for x
  proof -
    define b1 where "b1 = take n (buffer s) @ x"
    have b1: "\<not> length b1 < n" "b1 \<noteq> []" "slice b1 0 2 = slice (buffer s) 0 2"
      "slice b1 2 n = slice (buffer s) 2 n" "drop n b1 = x"
      using f(1) n2 by (auto simp: b1_def slice_take_append)
    have "decrypt_pass lib (s\<lparr>buffer := b1\<rparr>) =
            Next ((updateNonce (s\<lparr>buffer := b1, payloadLength := len\<rparr>))
                    \<lparr>expectingLength := False, buffer := x\<rparr>) []"
      using True
      by (simp add: decrypt_pass_def Let_def n_def [symmetric] b1 f(2,3)
            del: add_2_eq_Suc add_2_eq_Suc')
    also have "(updateNonce (s\<lparr>buffer := b1, payloadLength := len\<rparr>))
                    \<lparr>expectingLength := False, buffer := x\<rparr> = t\<lparr>buffer := x\<rparr>"
      by (simp add: f(5) updateNonce_def Let_def)
    finally show ?thesis by (simp add: b1_def f(4))
  qed
  moreover have "buffer s = take n (buffer s) @ buffer t"
    by (simp add: f(5))
  ultimately show ?thesis by blast
next
  case False
  define n where "n = payloadLength s + tagSize (methodInfo s)"
  from decrypt_pass_payload_Next [OF assms(1) False] obtain payload where
    f: "buffer s \<noteq> []" "n \<le> length (buffer s)"
       "createAEADCipher_decrypt lib (method s) (key s) (nonce s)
          (slice (buffer s) (payloadLength s) n) (slice (buffer s) 0 (payloadLength s)) =
            Inr (Some payload)"
       "out = [payload]"
       "t = (updateNonce s)\<lparr>expectingLength := True, buffer := drop n (buffer s)\<rparr>"
    unfolding n_def by blast
  have pn: "payloadLength s \<le> n" by (simp add: n_def)
  from tpos have n0: "n \<noteq> 0" by (simp add: n_def)
  have "decrypt_pass lib (s\<lparr>buffer := take n (buffer s) @ x\<rparr>) = Next (t\<lparr>buffer := x\<rparr>) out"
    for x
  proof -
    define b1 where "b1 = take n (buffer s) @ x"
    have b1: "\<not> length b1 < n" "b1 \<noteq> []"
      "slice b1 0 (payloadLength s) = slice (buffer s) 0 (payloadLength s)"
      "slice b1 (payloadLength s) n = slice (buffer s) (payloadLength s) n" "drop n b1 = x"
      using f(1,2) pn n0 by (auto simp: b1_def slice_take_append)
    have "decrypt_pass lib (s\<lparr>buffer := b1\<rparr>) =
            Next ((updateNonce (s\<lparr>buffer := b1\<rparr>))
                    \<lparr>expectingLength := True, buffer := x\<rparr>) [payload]"
      using False
      by (simp add: decrypt_pass_def Let_def n_def [symmetric] b1 f(3))
    also have "(updateNonce (s\<lparr>buffer := b1\<rparr>))\<lparr>expectingLength := True, buffer := x\<rparr> =
               t\<lparr>buffer := x\<rparr>"
      by (simp add: f(5) updateNonce_def Let_def)
    finally show ?thesis by (simp add: b1_def f(4))
  qed
  moreover have "buffer s = take n (buffer s) @ buffer t"
    by (simp add: f(5))
  ultimately show ?thesis by blast
qed

lemma decrypt_loop_consumed:
  "decrypt_loop lib s = (s', out, err) \<Longrightarrow> 0 < tagSize (methodInfo s) \<Longrightarrow>
   \<exists>consumed. buffer s = consumed @ buffer s' \<and>
     decrypt_loop lib (s\<lparr>buffer := consumed\<rparr>) = (s'\<lparr>buffer := []\<rparr>, out, None)"
proof (induction lib s arbitrary: s' out err rule: decrypt_loop.induct)
  case (1 lib s)
  show ?case
  proof (cases "decrypt_pass lib s")
    case Break
    with "1.prems" have "s' = s" "out = []" by (simp_all add: decrypt_loop.simps [of lib s])
    then show ?thesis by (simp add: decrypt_loop_empty exI [of _ "[]"])
  next
    case (Fail x)
    with "1.prems" have "s' = s" "out = []" by (simp_all add: decrypt_loop.simps [of lib s])
    then show ?thesis by (simp add: decrypt_loop_empty exI [of _ "[]"])
  next
    case (Next t out1)
    obtain t' out2 e2 where r: "decrypt_loop lib t = (t', out2, e2)"
      by (cases "decrypt_loop lib t") auto
    from "1.prems" Next r have eq: "s' = t'" "out = out1 @ out2"
      by (simp_all add: decrypt_loop.simps [of lib s])
    from decrypt_pass_methodInfo [OF Next] "1.prems"(2)
    have "0 < tagSize (methodInfo t)" by simp
    from "1.IH" [OF Next r this] obtain c2 where
      c2: "buffer t = c2 @ buffer t'"
          "decrypt_loop lib (t\<lparr>buffer := c2\<rparr>) = (t'\<lparr>buffer := []\<rparr>, out2, None)"
      by blast
    from decrypt_pass_Next_prefix [OF Next "1.prems"(2)] obtain c1 where
      c1: "buffer s = c1 @ buffer t"
          "\<And>x. decrypt_pass lib (s\<lparr>buffer := c1 @ x\<rparr>) = Next (t\<lparr>buffer := x\<rparr>) out1"
      by blast
    have "decrypt_loop lib (s\<lparr>buffer := c1 @ c2\<rparr>) = (s'\<lparr>buffer := []\<rparr>, out, None)"
      by (simp add: decrypt_loop.simps [of lib "s\<lparr>buffer := c1 @ c2\<rparr>"] c1(2) c2(2) eq)
    moreover have "buffer s = (c1 @ c2) @ buffer s'"
      by (simp add: c1(1) c2(1) eq)
    ultimately show ?thesis by blast
  qed
qed

lemma AEADDecryptor_transform_later:
  "\<not> isFirstChunk d \<Longrightarrow>
   AEADDecryptor_transform lib d chunk = decrypt_loop lib (d\<lparr>buffer := buffer d @ chunk\<rparr>)"
  by (simp add: AEADDecryptor_transform_def Let_def)

lemma AEADDecryptor_transform_wait:
  "isFirstChunk d \<Longrightarrow> length (buffer d @ chunk) < saltSize (methodInfo d) \<Longrightarrow>
   AEADDecryptor_transform lib d chunk = (d\<lparr>buffer := buffer d @ chunk\<rparr>, [], None)"
  by (simp add: AEADDecryptor_transform_def Let_def)

lemma AEADDecryptor_transform_salt:
  "isFirstChunk d \<Longrightarrow> saltSize (methodInfo d) \<le> length (buffer d @ chunk) \<Longrightarrow>
   AEADDecryptor_transform lib d chunk =
     decrypt_loop lib
       ((initializeDecryption lib
           (d\<lparr>buffer := drop (saltSize (methodInfo d)) (buffer d @ chunk)\<rparr>)
           (take (saltSize (methodInfo d)) (buffer d @ chunk)))\<lparr>isFirstChunk := False\<rparr>)"
  by (simp add: AEADDecryptor_transform_def Let_def slice_def)

lemma initializeDecryption_buffer:
  "(initializeDecryption lib (d\<lparr>buffer := x\<rparr>) s)\<lparr>isFirstChunk := False, buffer := y\<rparr> =
   (initializeDecryption lib (d\<lparr>buffer := y\<rparr>) s)\<lparr>isFirstChunk := False\<rparr>"
  by (cases d) (simp add: initializeDecryption_def)

lemma AEADDecryptor_transform_error_state:
  assumes "AEADDecryptor_transform lib d chunk = (d', out, Some e)"
  shows "decrypt_pass lib d' = Fail e"
proof (cases "isFirstChunk d")
  case False
  with assms show ?thesis
    by (simp add: AEADDecryptor_transform_later decrypt_loop_error_state)
next
  case True
  show ?thesis
  proof (cases "length (buffer d @ chunk) < saltSize (methodInfo d)")
    case True
    with \<open>isFirstChunk d\<close> assms show ?thesis
      by (simp add: AEADDecryptor_transform_wait)
  next
    case False
    then have "saltSize (methodInfo d) \<le> length (buffer d @ chunk)" by simp
    from assms [unfolded AEADDecryptor_transform_salt [OF True this]]
    show ?thesis by (rule decrypt_loop_error_state)
  qed
qed

lemma AEADDecryptor_transform_consumed:
  assumes "AEADDecryptor_transform lib d chunk = (d', out, Some e)"
    and tpos: "0 < tagSize (methodInfo d)"
  shows "\<exists>consumed. buffer d @ chunk = consumed @ buffer d' \<and>
           AEADDecryptor_transform lib (d\<lparr>buffer := []\<rparr>) consumed =
             (d'\<lparr>buffer := []\<rparr>, out, None)"
proof (cases "isFirstChunk d")
  case False
  with assms have "decrypt_loop lib (d\<lparr>buffer := buffer d @ chunk\<rparr>) = (d', out, Some e)"
    by (simp add: AEADDecryptor_transform_later)
  from decrypt_loop_consumed [OF this] tpos obtain c where
    c: "buffer d @ chunk = c @ buffer d'"
    "decrypt_loop lib (d\<lparr>buffer := c\<rparr>) = (d'\<lparr>buffer := []\<rparr>, out, None)"
    by auto
  from False have "AEADDecryptor_transform lib (d\<lparr>buffer := []\<rparr>) c =
      decrypt_loop lib (d\<lparr>buffer := c\<rparr>)"
    by (simp add: AEADDecryptor_transform_later)
  with c show ?thesis by auto
next
  case True
  define n where "n = saltSize (methodInfo d)"
  define b where "b = buffer d @ chunk"
  define X where "X = (initializeDecryption lib (d\<lparr>buffer := drop n b\<rparr>) (take n b))
                         \<lparr>isFirstChunk := False\<rparr>"
  have le: "n \<le> length b"
  proof (rule ccontr)
    assume "\<not> n \<le> length b"
    then have "length (buffer d @ chunk) < saltSize (methodInfo d)"
      by (simp add: n_def b_def)
    from AEADDecryptor_transform_wait [OF True this, of lib] assms(1) show False by simp
  qed
  then have "saltSize (methodInfo d) \<le> length (buffer d @ chunk)"
    by (simp add: n_def b_def)
  from assms(1) [unfolded AEADDecryptor_transform_salt [OF True this]]
  have "decrypt_loop lib X = (d', out, Some e)"
    by (simp add: X_def n_def b_def)
  moreover have "0 < tagSize (methodInfo X)"
    using tpos by (simp add: X_def initializeDecryption_def)
  ultimately obtain c where
    c: "buffer X = c @ buffer d'"
       "decrypt_loop lib (X\<lparr>buffer := c\<rparr>) = (d'\<lparr>buffer := []\<rparr>, out, None)"
    using decrypt_loop_consumed by blast
  have bx: "buffer X = drop n b" by (simp add: X_def initializeDecryption_def)
  have fc: "isFirstChunk (d\<lparr>buffer := []\<rparr>)" using True by simp
  have l2: "saltSize (methodInfo (d\<lparr>buffer := []\<rparr>)) \<le>
            length (buffer (d\<lparr>buffer := []\<rparr>) @ take n b @ c)"
    using le by (simp add: n_def)
  have "AEADDecryptor_transform lib (d\<lparr>buffer := []\<rparr>) (take n b @ c) =
          decrypt_loop lib (X\<lparr>buffer := c\<rparr>)"
    unfolding AEADDecryptor_transform_salt [OF fc l2]
    using le by (simp add: n_def [symmetric] X_def initializeDecryption_buffer)
  moreover have "b = (take n b @ c) @ buffer d'"
    using c(1) bx append_take_drop_id [of n b] by simp
  ultimately show ?thesis using c(2) by (auto simp: b_def)
qed

section \<open>A failed open\<close>

lemma open_fails_pass:
  "open_fails lib s \<Longrightarrow>
   decrypt_pass lib s =
     Fail (Error (if expectingLength s then ''AEAD authentication failed for length''
                  else ''AEAD authentication failed for payload''))"
  by (simp add: open_fails_def decrypt_pass_def Let_def split: if_splits)

lemma createAEADCipher_decrypt_Inl:
  "createAEADCipher_decrypt lib m k n t c = Inl e \<Longrightarrow>
   e = TypeError \<or> e = Error ''Unknown cipher''"
  by (auto simp: createAEADCipher_decrypt_def split: option.splits if_splits)

lemma decrypt_pass_length_error:
  assumes "decrypt_pass lib s = Fail (Error ''AEAD authentication failed for length'')"
  shows "expectingLength s \<and> 2 + tagSize (methodInfo s) \<le> length (buffer s)"
  using assms
  by (auto simp: decrypt_pass_def Let_def split: if_splits sum.splits option.splits
        dest: createAEADCipher_decrypt_Inl)

lemma serverConn_data_destroyed:
  "destroyed (serverConn t) \<Longrightarrow> fold (\<lambda>b u. serverConn_data lib u b) later t = t"
  by (induction later) (simp_all add: serverConn_data_def)

lemma AEADDecryptor_transform_then_fail:
  assumes "AEADDecryptor_transform lib d c1 = (s1, out, None)" and "\<not> isFirstChunk s1"
    and "decrypt_pass lib (s1\<lparr>buffer := buffer s1 @ rest\<rparr>) = Fail e"
  shows "AEADDecryptor_transform lib d (c1 @ rest) =
           (s1\<lparr>buffer := buffer s1 @ rest\<rparr>, out, Some e)"
proof -
  have "AEADDecryptor_transform lib s1 rest = (s1\<lparr>buffer := buffer s1 @ rest\<rparr>, [], Some e)"
    using assms(2,3)
    by (simp add: AEADDecryptor_transform_later
          decrypt_loop.simps [of lib "s1\<lparr>buffer := buffer s1 @ rest\<rparr>"])
  with assms(1) show ?thesis
    by (simp add: AEADDecryptor_transform_append [of lib d c1 rest])
qed

text \<open>
  C8. A relay whose server socket and decryptor are alive receives \<open>c1 @ rest\<close>. The
  bytes \<open>c1\<close> decrypt without error to \<open>out\<close> and leave the decryptor past the salt;
  then the open of the next length field or payload, with \<open>rest\<close> in the carry buffer,
  fails. Then \<open>_transform\<close> passes an authentication error to its callback, it has
  pushed \<open>out\<close> and nothing of the failed chunk or of what follows it, which stays in
  the carry buffer; the client socket has been written the buffers of \<open>out\<close> (the
  non-empty ones: a zero-length buffer raises no \<open>data\<close> event) and nothing else; the
  \<open>error\<close> listener destroys the client and the server socket, and whatever the server
  sends later, nothing more is written to the client.
\<close>

theorem open_failure_is_fatal:
  assumes "\<not> destroyed (serverConn t)" and "\<not> decryptorDestroyed t"
    and "AEADDecryptor_transform lib (decryptor t) c1 = (s1, out, None)"
    and "\<not> isFirstChunk s1"
    and "open_fails lib (s1\<lparr>buffer := buffer s1 @ rest\<rparr>)"
  shows "AEADDecryptor_transform lib (decryptor t) (c1 @ rest) =
           (s1\<lparr>buffer := buffer s1 @ rest\<rparr>, out,
            Some (Error (if expectingLength s1 then ''AEAD authentication failed for length''
                         else ''AEAD authentication failed for payload''))) \<and>
         clientConn (serverConn_data lib t (c1 @ rest)) =
           destroy (write_each (clientConn t) (filter (\<lambda>b. b \<noteq> []) out)) \<and>
         destroyed (clientConn (serverConn_data lib t (c1 @ rest))) \<and>
         destroyed (serverConn (serverConn_data lib t (c1 @ rest))) \<and>
         (\<forall>later. written (clientConn (fold (\<lambda>b u. serverConn_data lib u b) later
                                          (serverConn_data lib t (c1 @ rest)))) =
                   written (clientConn (serverConn_data lib t (c1 @ rest))))"
proof -
  define e where "e = Error (if expectingLength s1 then ''AEAD authentication failed for length''
                             else ''AEAD authentication failed for payload'')"
  from open_fails_pass [OF assms(5)]
  have "decrypt_pass lib (s1\<lparr>buffer := buffer s1 @ rest\<rparr>) = Fail e"
    by (simp add: e_def)
  from AEADDecryptor_transform_then_fail [OF assms(3,4) this]
  have r: "AEADDecryptor_transform lib (decryptor t) (c1 @ rest) =
             (s1\<lparr>buffer := buffer s1 @ rest\<rparr>, out, Some e)" .
  define t' where "t' = serverConn_data lib t (c1 @ rest)"
  have t': "clientConn t' = destroy (write_each (clientConn t) (filter (\<lambda>b. b \<noteq> []) out))"
    "serverConn t' = destroy (serverConn t)"
    using assms(1,2) r by (simp_all add: t'_def serverConn_data_def)
  then have d: "destroyed (clientConn t')" "destroyed (serverConn t')"
    by (simp_all add: destroy_def)
  have "fold (\<lambda>b u. serverConn_data lib u b) later t' = t'" for later
    using d(2) by (rule serverConn_data_destroyed)
  with r t'(1) d show ?thesis
    unfolding t'_def [symmetric] by (auto simp: e_def)
qed

lemma le_bytes_12_2: "le_bytes 12 (Suc (Suc 0)) = [2, 0, 0, 0, 0, 0, 0, 0, 0, 0, 0, 0]"
  by (subst le_bytes_12) simp

lemma length_le_bytes [simp]: "length (le_bytes n c) = n"
  by (simp add: le_bytes_def)

lemma running_decryptor_twice:
  "updateNonce (updateNonce running_decryptor) =
     running_decryptor\<lparr>chunkId := 2, nonce := [2, 0, 0, 0, 0, 0, 0, 0, 0, 0, 0, 0]\<rparr>"
proof -
  have "updateNonce running_decryptor =
          running_decryptor\<lparr>chunkId := Suc 0, nonce := le_bytes 12 (Suc 0)\<rparr>"
    by (simp add: updateNonce_small running_decryptor_fields)
  moreover have "updateNonce (running_decryptor\<lparr>chunkId := Suc 0, nonce := le_bytes 12 (Suc 0)\<rparr>) =
          running_decryptor\<lparr>chunkId := Suc (Suc 0), nonce := le_bytes 12 (Suc (Suc 0))\<rparr>"
    by (subst updateNonce_small) simp_all
  ultimately show ?thesis
    by (simp add: le_bytes_12_2 numeral_2_eq_2)
qed

lemma decrypt_frame_123:
  "AEADDecryptor_transform toy_crypto running_decryptor
     ([218, 217] @ replicate 16 221 @ [218, 217, 216] @ replicate 16 225) =
   (running_decryptor\<lparr>chunkId := 2, nonce := [2, 0, 0, 0, 0, 0, 0, 0, 0, 0, 0, 0],
                      payloadLength := 3\<rparr>, [[1, 2, 3]], None)"
  using decrypt_frame [OF toy_crypto_ok running_decryptor_fields(1,6,7,2)
          running_decryptor_method, of "[1, 2, 3]"]
  by (simp add: running_decryptor_fields algorithm_of_def nonce_running_decryptor_1 frame_123
        running_decryptor_twice)

lemma toy_pad_2: "toy_pad (replicate 16 232) [2, 0, 0, 0, 0, 0, 0, 0, 0, 0, 0, 0] = 220"
  by (simp add: toy_pad_def replicate_16)

lemma bad_length_field:
  "open_fails toy_crypto
     (running_decryptor\<lparr>chunkId := 2, nonce := [2, 0, 0, 0, 0, 0, 0, 0, 0, 0, 0, 0],
                        payloadLength := 3, buffer := [0, 0] @ replicate 16 0\<rparr>)"
  by (simp add: open_fails_def running_decryptor_fields createAEADCipher_decrypt_def
        AEAD_METHODS_aes128 toy_open toy_pad_2 slice_def)

theorem open_failure_is_fatal_witness:
  "AEADDecryptor_transform toy_crypto (decryptor live_tunnel)
     (([218, 217] @ replicate 16 221 @ [218, 217, 216] @ replicate 16 225) @
      ([0, 0] @ replicate 16 0)) =
     (running_decryptor\<lparr>chunkId := 2, nonce := [2, 0, 0, 0, 0, 0, 0, 0, 0, 0, 0, 0],
                        payloadLength := 3, buffer := [0, 0] @ replicate 16 0\<rparr>,
      [[1, 2, 3]], Some (Error ''AEAD authentication failed for length'')) \<and>
   clientConn (serverConn_data toy_crypto live_tunnel
     (([218, 217] @ replicate 16 221 @ [218, 217, 216] @ replicate 16 225) @
      ([0, 0] @ replicate 16 0))) = \<lparr>written = [[1, 2, 3]], destroyed = True\<rparr> \<and>
   destroyed (serverConn (serverConn_data toy_crypto live_tunnel
     (([218, 217] @ replicate 16 221 @ [218, 217, 216] @ replicate 16 225) @
      ([0, 0] @ replicate 16 0)))) \<and>
   written (clientConn (fold (\<lambda>b u. serverConn_data toy_crypto u b)
     [[218, 217] @ replicate 16 221 @ [218, 217, 216] @ replicate 16 225]
     (serverConn_data toy_crypto live_tunnel
       (([218, 217] @ replicate 16 221 @ [218, 217, 216] @ replicate 16 225) @
        ([0, 0] @ replicate 16 0))))) = [[1, 2, 3]]"
proof -
  let ?F = "[218, 217] @ replicate 16 221 @ [218, 217, 216] @ replicate 16 (225::byte)"
  let ?B = "[0, 0] @ replicate 16 (0::byte)"
  let ?T = "serverConn_data toy_crypto live_tunnel (?F @ ?B)"
  define s1 where "s1 = running_decryptor\<lparr>chunkId := 2,
     nonce := [2, 0, 0, 0, 0, 0, 0, 0, 0, 0, 0, 0], payloadLength := 3\<rparr>"
  have a: "\<not> destroyed (serverConn live_tunnel)" "\<not> decryptorDestroyed live_tunnel"
    by (simp_all add: live_tunnel_def)
  have b: "AEADDecryptor_transform toy_crypto (decryptor live_tunnel) ?F = (s1, [[1, 2, 3]], None)"
    using decrypt_frame_123 by (simp add: live_tunnel_def s1_def)
  have c: "\<not> isFirstChunk s1" "buffer s1 = []" "expectingLength s1"
    by (simp_all add: s1_def running_decryptor_fields)
  have d: "open_fails toy_crypto (s1\<lparr>buffer := buffer s1 @ ?B\<rparr>)"
    using bad_length_field by (simp add: s1_def running_decryptor_fields)
  have w: "destroy (write_each (clientConn live_tunnel) (filter (\<lambda>b. b \<noteq> []) [[1, 2, 3]])) =
     \<lparr>written = [[1, 2, 3]], destroyed = True\<rparr>"
    by (simp add: write_each_def socket_write_def live_tunnel_def destroy_def)
  note th = open_failure_is_fatal [OF a b c(1) d]
  from th have 1: "AEADDecryptor_transform toy_crypto (decryptor live_tunnel) (?F @ ?B) =
     (running_decryptor\<lparr>chunkId := 2, nonce := [2, 0, 0, 0, 0, 0, 0, 0, 0, 0, 0, 0],
                        payloadLength := 3, buffer := ?B\<rparr>,
      [[1, 2, 3]], Some (Error ''AEAD authentication failed for length''))"
    by (simp add: c) (simp add: s1_def)
  from th have 2: "clientConn ?T = \<lparr>written = [[1, 2, 3]], destroyed = True\<rparr>"
    unfolding w by blast
  from th have 3: "destroyed (serverConn ?T)" by blast
  from th have "\<forall>later. written (clientConn (fold (\<lambda>b u. serverConn_data toy_crypto u b) later ?T)) =
      written (clientConn ?T)" by blast
  then have "written (clientConn (fold (\<lambda>b u. serverConn_data toy_crypto u b) [?F] ?T)) =
      written (clientConn ?T)" by (rule spec)
  with 2 have 4: "written (clientConn (fold (\<lambda>b u. serverConn_data toy_crypto u b) [?F] ?T)) =
      [[1, 2, 3]]" by (simp del: fold_simps)
  from 1 2 3 4 show ?thesis by (intro conjI)
qed

lemma tampered_length_example:
  "AEADDecryptor_transform toy_crypto running_decryptor
     (([218, 217] @ replicate 16 221 @ [218, 217, 216] @ replicate 16 225) @
      ([0, 0] @ replicate 16 0)) =
     (running_decryptor\<lparr>chunkId := 2, nonce := [2, 0, 0, 0, 0, 0, 0, 0, 0, 0, 0, 0],
                        payloadLength := 3, buffer := [0, 0] @ replicate 16 0\<rparr>,
      [[1, 2, 3]], Some (Error ''AEAD authentication failed for length''))"
proof -
  define s1 where "s1 = running_decryptor\<lparr>chunkId := 2,
     nonce := [2, 0, 0, 0, 0, 0, 0, 0, 0, 0, 0, 0], payloadLength := 3\<rparr>"
  have c: "\<not> isFirstChunk s1" "buffer s1 = []" "expectingLength s1"
    by (simp_all add: s1_def running_decryptor_fields)
  have "open_fails toy_crypto (s1\<lparr>buffer := buffer s1 @ ([0, 0] @ replicate 16 0)\<rparr>)"
    using bad_length_field by (simp add: s1_def running_decryptor_fields)
  from open_fails_pass [OF this]
  have "decrypt_pass toy_crypto (s1\<lparr>buffer := buffer s1 @ ([0, 0] @ replicate 16 0)\<rparr>) =
          Fail (Error ''AEAD authentication failed for length'')"
    by (simp add: c)
  from AEADDecryptor_transform_then_fail [OF decrypt_frame_123 [folded s1_def] c(1) this]
  show ?thesis by (simp add: c) (simp add: s1_def)
qed

text \<open>
  C10. When \<open>_transform\<close> ends with the error of a length field that did not verify, the
  state it leaves is the state before the failed step: the decryptor still expects a
  length, its carry buffer still starts with the whole length field, which fails again
  when tried again, leaving the state as it is; and apart from the carry buffer the
  state, with its nonce and chunk counter, is the one reached by decrypting exactly the
  bytes in front of that length field.
\<close>

theorem length_failure_keeps_state:
  assumes "AEADDecryptor_transform lib d chunk =
             (d', out, Some (Error ''AEAD authentication failed for length''))"
    and "0 < tagSize (methodInfo d)"
  shows "expectingLength d' \<and> 2 + tagSize (methodInfo d') \<le> length (buffer d') \<and>
         decrypt_pass lib d' = Fail (Error ''AEAD authentication failed for length'') \<and>
         decrypt_loop lib d' = (d', [], Some (Error ''AEAD authentication failed for length'')) \<and>
         (\<exists>consumed. buffer d @ chunk = consumed @ buffer d' \<and>
            AEADDecryptor_transform lib (d\<lparr>buffer := []\<rparr>) consumed =
              (d'\<lparr>buffer := []\<rparr>, out, None))"
proof -
  from AEADDecryptor_transform_error_state [OF assms(1)]
  have p: "decrypt_pass lib d' = Fail (Error ''AEAD authentication failed for length'')" .
  then have "decrypt_loop lib d' =
      (d', [], Some (Error ''AEAD authentication failed for length''))"
    by (simp add: decrypt_loop.simps [of lib d'])
  with p decrypt_pass_length_error [OF p] AEADDecryptor_transform_consumed [OF assms]
  show ?thesis by blast
qed

theorem length_failure_keeps_state_witness:
  "AEADDecryptor_transform toy_crypto running_decryptor
     (([218, 217] @ replicate 16 221 @ [218, 217, 216] @ replicate 16 225) @
      ([0, 0] @ replicate 16 0)) =
     (running_decryptor\<lparr>chunkId := 2, nonce := [2, 0, 0, 0, 0, 0, 0, 0, 0, 0, 0, 0],
                        payloadLength := 3, buffer := [0, 0] @ replicate 16 0\<rparr>,
      [[1, 2, 3]], Some (Error ''AEAD authentication failed for length'')) \<and>
   decrypt_loop toy_crypto
     (running_decryptor\<lparr>chunkId := 2, nonce := [2, 0, 0, 0, 0, 0, 0, 0, 0, 0, 0, 0],
                        payloadLength := 3, buffer := [0, 0] @ replicate 16 0\<rparr>) =
     (running_decryptor\<lparr>chunkId := 2, nonce := [2, 0, 0, 0, 0, 0, 0, 0, 0, 0, 0, 0],
                        payloadLength := 3, buffer := [0, 0] @ replicate 16 0\<rparr>,
      [], Some (Error ''AEAD authentication failed for length''))"
proof -
  have "0 < tagSize (methodInfo running_decryptor)"
    by (simp add: running_decryptor_fields)
  from length_failure_keeps_state [OF tampered_length_example this] tampered_length_example
  show ?thesis by blast
qed

section \<open>The SOCKS5 greeting and request\<close>

text \<open>
  C4 (as amended). After a complete SOCKS5 greeting (version byte \<open>0x05\<close> plus
  \<open>n_methods\<close> method bytes) has been received, the local server replies \<open>\x05\x00\<close>
  whether or not \<open>0x00\<close> is among the offered methods, leaves the connection open and
  goes on to the request; whatever it receives, the handshake handler writes nothing
  but \<open>\x05\x00\<close>, so never \<open>\x05\xFF\<close>.
\<close>

theorem greeting_reply_is_no_auth:
  "(2 \<le> length (handshakeBuffer @ data) \<and> (handshakeBuffer @ data) ! 0 = 0x05 \<and>
    2 + unat ((handshakeBuffer @ data) ! 1) \<le> length (handshakeBuffer @ data) \<longrightarrow>
      handshakeHandler handshakeBuffer conn data =
        (RequestHandler [], socket_write conn [0x05, 0x00])) \<and>
   (written (snd (handshakeHandler handshakeBuffer conn data)) = written conn \<or>
    written (snd (handshakeHandler handshakeBuffer conn data)) =
      written conn @ [[0x05, 0x00]])"
  by (auto simp: handshakeHandler_def Let_def socket_write_def destroy_def)

theorem greeting_reply_is_no_auth_witness:
  "handshakeHandler [0x05] new_socket [0x02, 0x01, 0x02] =
     (RequestHandler [], \<lparr>written = [[0x05, 0x00]], destroyed = False\<rparr>)"
  using greeting_reply_is_no_auth [of "[0x05]" "[0x02, 0x01, 0x02]" new_socket]
  by (simp add: socket_write_def new_socket_def)

text \<open>
  C4 as stated fails: to the greeting \<open>05 01 02\<close>, which offers the method \<open>0x02\<close> only,
  the server replies \<open>\x05\x00\<close> and waits for the request; it neither replies
  \<open>\x05\xFF\<close> nor closes.
\<close>

theorem greeting_counterexample:
  "(0x00 :: byte) \<notin> set [0x02] \<and>
   handshakeHandler [] new_socket [0x05, 0x01, 0x02] =
     (RequestHandler [], \<lparr>written = [[0x05, 0x00]], destroyed = False\<rparr>)"
  by (simp add: handshakeHandler_def Let_def socket_write_def new_socket_def)

lemma first_write:
  assumes "new_AEADEncryptor m pw = Inr e" and "0 < length p" and "length p \<le> 0xFFFF"
  shows "AEADEncryptor_transform lib e p =
           (updateNonce (updateNonce (started lib e)),
            [randomBytes lib (saltSize (methodInfo e)),
             chunk_frame lib (algorithm_of m)
               (deriveKey lib pw (randomBytes lib (saltSize (methodInfo e)))
                  (keySize (methodInfo e)))
               (tagSize (methodInfo e)) (nonce (started lib e))
               (nonce (updateNonce (started lib e))) p],
            None)"
proof -
  from assms(1) obtain mi where mi: "AEAD_METHODS m = Some mi"
    and e: "e = \<lparr>method = m, password = pw, methodInfo = mi, salt = None, key = None,
               nonce = replicate (nonceSize mi) 0, isFirstChunk = True, chunkId = 0\<rparr>"
    by (auto simp: new_AEADEncryptor_def split: option.splits if_splits)
  have s: "\<not> isFirstChunk (started lib e)" "method (started lib e) = m"
    "key (started lib e) = Some (deriveKey lib pw (randomBytes lib (saltSize (methodInfo e)))
                                  (keySize (methodInfo e)))"
    "methodInfo e = mi" "isFirstChunk e"
    by (simp_all add: started_def initializeEncryption_def Let_def e)
  from mi s(2) have "AEAD_METHODS (method (started lib e)) = Some mi" by simp
  from encrypt_frame [OF s(1) s(3) this assms(2,3), of lib] s(5)
  show ?thesis
    by (simp add: AEADEncryptor_transform_first s(2,4))
qed

text \<open>
  C5 (as amended). A SOCKS5 request with ATYP \<open>0x04\<close> (IPv6) is accepted. Once its 22
  bytes are there, the request handler sends no reply and leaves the connection open,
  and calls \<open>connectToServer\<close> with the 19 bytes from the address type to the port; its
  \<open>connect\<close> callback writes that record to a new encryptor, so that the salt and the
  frame of the record go to the server socket, and replies success to the client. The
  reply \<open>REP=0x08\<close> followed by \<open>destroy\<close> is for the address types other than \<open>0x01\<close>,
  \<open>0x03\<close> and \<open>0x04\<close>.
\<close>

theorem ipv6_request_is_forwarded:
  assumes "rb = requestBuffer @ data" and "4 \<le> length rb"
    and "rb ! 0 = 0x05" and "rb ! 1 = 0x01" and "rb ! 2 = 0x00"
    and "new_AEADEncryptor m pw = Inr e" and "new_AEADDecryptor m pw = Inr d"
  shows "(rb ! 3 = 0x04 \<and> 22 \<le> length rb \<longrightarrow>
            requestHandler requestBuffer conn data = (ConnectToServer (slice rb 3 22), conn) \<and>
            connect_callback lib m pw conn server (slice rb 3 22) =
              Inr \<lparr>clientConn = socket_write conn [0x05, 0x00, 0x00, 0x01, 0, 0, 0, 0, 0, 0],
                   serverConn = write_each server
                     [randomBytes lib (saltSize (methodInfo e)),
                      chunk_frame lib (algorithm_of m)
                        (deriveKey lib pw (randomBytes lib (saltSize (methodInfo e)))
                           (keySize (methodInfo e)))
                        (tagSize (methodInfo e)) (nonce (started lib e))
                        (nonce (updateNonce (started lib e))) (slice rb 3 22)],
                   encryptor = updateNonce (updateNonce (started lib e)), decryptor = d,
                   encryptorDestroyed = False, decryptorDestroyed = False\<rparr>) \<and>
         (rb ! 3 \<noteq> 0x01 \<and> rb ! 3 \<noteq> 0x03 \<and> rb ! 3 \<noteq> 0x04 \<longrightarrow>
            requestHandler requestBuffer conn data =
              (RequestHandler rb,
               destroy (socket_write conn [0x05, 0x08, 0x00, 0x01, 0, 0, 0, 0, 0, 0])))"
proof -
  have len: "length (slice rb 3 22) = 19" if "22 \<le> length rb"
    using that by (simp add: slice_def)
  have a: "requestHandler requestBuffer conn data = (ConnectToServer (slice rb 3 22), conn)"
    if "rb ! 3 = 0x04" "22 \<le> length rb"
    using that assms(1-5)
    by (simp add: requestHandler_def requestHandler_complete_def Let_def)
  have b: "connect_callback lib m pw conn server (slice rb 3 22) =
              Inr \<lparr>clientConn = socket_write conn [0x05, 0x00, 0x00, 0x01, 0, 0, 0, 0, 0, 0],
                   serverConn = write_each server
                     [randomBytes lib (saltSize (methodInfo e)),
                      chunk_frame lib (algorithm_of m)
                        (deriveKey lib pw (randomBytes lib (saltSize (methodInfo e)))
                           (keySize (methodInfo e)))
                        (tagSize (methodInfo e)) (nonce (started lib e))
                        (nonce (updateNonce (started lib e))) (slice rb 3 22)],
                   encryptor = updateNonce (updateNonce (started lib e)), decryptor = d,
                   encryptorDestroyed = False, decryptorDestroyed = False\<rparr>"
    if "22 \<le> length rb"
    using first_write [OF assms(6), of "slice rb 3 22" lib] len [OF that] assms(6,7)
    by (simp add: connect_callback_def Let_def)
  have c: "requestHandler requestBuffer conn data =
              (RequestHandler rb,
               destroy (socket_write conn [0x05, 0x08, 0x00, 0x01, 0, 0, 0, 0, 0, 0]))"
    if "rb ! 3 \<noteq> 0x01" "rb ! 3 \<noteq> 0x03" "rb ! 3 \<noteq> 0x04"
    using that assms(1-5)
    by (simp add: requestHandler_def Let_def)
  from a b c show ?thesis by blast
qed

theorem ipv6_request_is_forwarded_witness:
  "requestHandler [0x05, 0x01] new_socket ([0x00, 0x04] @ replicate 16 0x20 @ [0x00, 0x50]) =
     (ConnectToServer (0x04 # replicate 16 0x20 @ [0x00, 0x50]), new_socket) \<and>
   (\<exists>t. connect_callback toy_crypto ''aes-128-gcm'' ''pw'' new_socket new_socket
          (0x04 # replicate 16 0x20 @ [0x00, 0x50]) = Inr t \<and>
        written (clientConn t) = [[0x05, 0x00, 0x00, 0x01, 0, 0, 0, 0, 0, 0]] \<and>
        \<not> destroyed (clientConn t) \<and> length (written (serverConn t)) = 2)"
proof -
  let ?rb = "[0x05, 0x01] @ ([0x00, 0x04] @ replicate 16 0x20 @ [0x00, 0x50 :: byte])"
  have s: "slice ?rb 3 22 = 0x04 # replicate 16 0x20 @ [0x00, 0x50]"
    by (simp add: slice_def)
  have h: "4 \<le> length ?rb" "?rb ! 0 = 0x05" "?rb ! 1 = 0x01" "?rb ! 2 = 0x00"
    "?rb ! 3 = 0x04 \<and> 22 \<le> length ?rb"
    by simp_all
  from ipv6_request_is_forwarded [OF refl h(1-4) fresh_encryptor_new fresh_decryptor_new,
         of new_socket toy_crypto new_socket] h(5)
  show ?thesis
    unfolding s
    by (simp add: write_each_def socket_write_def new_socket_def)
qed

text \<open>
  C5 as stated fails: for a complete CONNECT request with ATYP \<open>0x04\<close> the handler writes
  no reply, does not destroy the socket, and passes the IPv6 record on to
  \<open>connectToServer\<close>.
\<close>

theorem ipv6_counterexample:
  "requestHandler [] new_socket
     ([0x05, 0x01, 0x00, 0x04] @ replicate 16 0x20 @ [0x00, 0x50]) =
     (ConnectToServer (0x04 # replicate 16 0x20 @ [0x00, 0x50]), new_socket) \<and>
   written new_socket = [] \<and> \<not> destroyed new_socket \<and>
   snd (requestHandler [] new_socket
          ([0x05, 0x01, 0x00, 0x04] @ replicate 16 0x20 @ [0x00, 0x50])) \<noteq>
     destroy (socket_write new_socket [0x05, 0x08, 0x00, 0x01, 0, 0, 0, 0, 0, 0])"
  by (simp add: requestHandler_def requestHandler_complete_def Let_def slice_def
        new_socket_def destroy_def socket_write_def)

section \<open>The nonce beyond 31 bits\<close>

lemma fold_nonce_byte_2_31:
  "snd (fold nonce_byte [0..<12] (2147483648, replicate 12 0)) =
     [0, 0, 0, 0x80, 0xFF, 0xFF, 0xFF, 0xFF, 0, 0, 0, 0]"
  apply (simp only: upt_12 replicate_12)
  apply (simp add: nonce_byte_def js_shr_def js_and_def ToInt32_def)
  done

lemma fold_nonce_byte_2_32:
  "snd (fold nonce_byte [0..<12] (4294967296, replicate 12 0)) = replicate 12 0"
  apply (simp only: upt_12 replicate_12)
  apply (simp add: nonce_byte_def js_shr_def js_and_def ToInt32_def)
  done

lemma le_bytes_2_31: "le_bytes 12 2147483648 = [0, 0, 0, 0x80, 0, 0, 0, 0, 0, 0, 0, 0]"
  by (subst le_bytes_12) simp

lemma length_fold_nonce_byte:
  "length (snd (fold nonce_byte ks (n, xs))) = length xs"
  by (induction ks arbitrary: n xs) (simp_all add: nonce_byte_def)

lemma fold_nonce_byte_any:
  assumes "length xs = 12"
  shows "snd (fold nonce_byte [0..<12] (n, xs)) =
         snd (fold nonce_byte [0..<12] (n, replicate 12 0))"
proof -
  from assms obtain x0 x1 x2 x3 x4 x5 x6 x7 x8 x9 x10 x11 where
    xs: "xs = [x0, x1, x2, x3, x4, x5, x6, x7, x8, x9, x10, x11]"
    by (auto simp: numeral_eq_Suc length_Suc_conv)
  show ?thesis
    unfolding xs upt_12 replicate_12 by (simp add: nonce_byte_def)
qed

lemma updateNonce_funpow_chunkId:
  "int (chunkId e) + int m \<le> 2 ^ 53 \<Longrightarrow> chunkId ((updateNonce ^^ m) e) = chunkId e + m"
  by (induction m) (simp_all add: updateNonce_def Let_def js_incr_def)

lemma updateNonce_funpow_length:
  "length (nonce ((updateNonce ^^ m) e)) = length (nonce e)"
  by (induction m) (simp_all add: updateNonce_def Let_def length_fold_nonce_byte)

lemma updateNonce_funpow_fields:
  "isFirstChunk ((updateNonce ^^ m) e) = isFirstChunk e"
  "key ((updateNonce ^^ m) e) = key e"
  "method ((updateNonce ^^ m) e) = method e"
  by (induction m) simp_all

lemma write_all_replicate:
  assumes "key e = Some k" and "AEAD_METHODS (method e) = Some mi"
    and "0 < length p" and "length p \<le> 0xFFFF"
  shows "\<not> isFirstChunk e \<Longrightarrow>
         fst (write_all (AEADEncryptor_transform lib) e (replicate n p)) =
           (updateNonce ^^ (2 * n)) e \<and>
         snd (snd (write_all (AEADEncryptor_transform lib) e (replicate n p))) = None"
  using assms(1,2)
proof (induction n arbitrary: e)
  case 0
  then show ?case by simp
next
  case (Suc n)
  let ?e = "updateNonce (updateNonce e)"
  have t: "AEADEncryptor_transform lib e p =
             (?e, [chunk_frame lib (algorithm_of (method e)) k (tagSize mi)
                     (nonce e) (nonce (updateNonce e)) p], None)"
    using Suc.prems assms(3,4) by (simp add: encrypt_frame)
  have "\<not> isFirstChunk ?e" "key ?e = Some k" "AEAD_METHODS (method ?e) = Some mi"
    using Suc.prems by simp_all
  from Suc.IH [OF this] show ?case
    by (auto simp: t funpow_swap1 split: prod.splits)
qed

lemma write_all_started:
  "isFirstChunk e \<Longrightarrow> ps \<noteq> [] \<Longrightarrow>
   fst (write_all (AEADEncryptor_transform lib) e ps) =
     fst (write_all (AEADEncryptor_transform lib) (started lib e) ps)"
  by (cases ps) (simp_all add: write_all_first split: prod.splits del: write_all.simps)

lemma nonce_after_writes:
  assumes "0 < n" and "int n < 2 ^ 52"
  shows "chunkId (fst (write_all (AEADEncryptor_transform toy_crypto) fresh_encryptor
                         (replicate n [0]))) = 2 * n \<and>
         nonce (fst (write_all (AEADEncryptor_transform toy_crypto) fresh_encryptor
                       (replicate n [0]))) =
           snd (fold nonce_byte [0..<12] (int (2 * n), replicate 12 0))"
proof -
  let ?w = "fst (write_all (AEADEncryptor_transform toy_crypto) fresh_encryptor
                   (replicate n [0]))"
  from assms(1) obtain m where m: "2 * n = Suc m"
    by (cases n) simp_all
  define s where "s = (updateNonce ^^ m) running_encryptor"
  have "isFirstChunk fresh_encryptor" by (simp add: fresh_encryptor_def)
  moreover have "replicate n [0::byte] \<noteq> []" using assms(1) by simp
  ultimately have "?w = fst (write_all (AEADEncryptor_transform toy_crypto) running_encryptor
                               (replicate n [0]))"
    unfolding started_fresh [symmetric] by (rule write_all_started)
  also have "\<dots> = (updateNonce ^^ (2 * n)) running_encryptor"
    using write_all_replicate [of running_encryptor "replicate 16 232" _ "[0]" toy_crypto n]
    by (simp add: running_encryptor_fields AEAD_METHODS_aes128)
  finally have w: "?w = updateNonce s"
    by (simp add: m s_def)
  have c: "chunkId s = m"
    unfolding s_def using assms(2) m
    by (subst updateNonce_funpow_chunkId) (simp_all add: running_encryptor_fields)
  have l: "length (nonce s) = 12"
    by (simp add: s_def updateNonce_funpow_length running_encryptor_fields)
  have j: "js_incr m = 2 * n"
    using assms(2) m by (simp add: js_incr_def)
  show ?thesis
    unfolding w
    by (simp add: updateNonce_def Let_def c j fold_nonce_byte_any [OF l]
          del: mult_Suc)
qed

text \<open>
  C6. The code departs from the claim once the counter reaches \<open>2^31\<close>: \<open>n & 0xff\<close> and
  \<open>n >> 8\<close> work on the signed 32-bit value of \<open>n\<close>. After \<open>2^30\<close> one-byte writes to a
  new encryptor, \<open>2^31\<close> operations are done, and the nonce of the next one is
  \<open>00 00 00 80 ff ff ff ff 00 00 00 00\<close>, not the little-endian encoding of \<open>2^31\<close>;
  after \<open>2^31\<close> writes the nonce is all zero, the nonce of operation 0 again.
\<close>

theorem nonce_of_operation_2_31:
  "chunkId (fst (write_all (AEADEncryptor_transform toy_crypto) fresh_encryptor
                   (replicate (2 ^ 30) [0]))) = 2 ^ 31 \<and>
   nonce (fst (write_all (AEADEncryptor_transform toy_crypto) fresh_encryptor
                 (replicate (2 ^ 30) [0]))) =
     [0, 0, 0, 0x80, 0xFF, 0xFF, 0xFF, 0xFF, 0, 0, 0, 0] \<and>
   le_bytes 12 (2 ^ 31) = [0, 0, 0, 0x80, 0, 0, 0, 0, 0, 0, 0, 0] \<and>
   chunkId (fst (write_all (AEADEncryptor_transform toy_crypto) fresh_encryptor
                   (replicate (2 ^ 31) [0]))) = 2 ^ 32 \<and>
   nonce (fst (write_all (AEADEncryptor_transform toy_crypto) fresh_encryptor
                 (replicate (2 ^ 31) [0]))) = nonce fresh_encryptor"
proof -
  define a :: nat where "a = 2 ^ 30"
  define b :: nat where "b = 2 ^ 31"
  have a: "0 < a" "int a < 2 ^ 52" and b: "0 < b" "int b < 2 ^ 52"
    by (simp_all add: a_def b_def)
  have ab: "2 * a = b" "int b = 2147483648" "int (2 * b) = 4294967296"
    "b = 2147483648" "2 * b = 4294967296"
    by (simp_all add: a_def b_def)
  have f: "nonce fresh_encryptor = replicate 12 0"
    by (simp add: fresh_encryptor_def)
  have A: "chunkId (fst (write_all (AEADEncryptor_transform toy_crypto) fresh_encryptor
                           (replicate a [0]))) = b"
    "nonce (fst (write_all (AEADEncryptor_transform toy_crypto) fresh_encryptor
                   (replicate a [0]))) = [0, 0, 0, 0x80, 0xFF, 0xFF, 0xFF, 0xFF, 0, 0, 0, 0]"
    using nonce_after_writes [OF a]
    unfolding ab(1) ab(2) by (simp_all add: fold_nonce_byte_2_31)
  have B: "chunkId (fst (write_all (AEADEncryptor_transform toy_crypto) fresh_encryptor
                           (replicate b [0]))) = 4294967296"
    "nonce (fst (write_all (AEADEncryptor_transform toy_crypto) fresh_encryptor
                   (replicate b [0]))) = nonce fresh_encryptor"
    using nonce_after_writes [OF b]
    unfolding ab(3) ab(5) f by (simp_all add: fold_nonce_byte_2_32)
  have L: "le_bytes 12 b = [0, 0, 0, 0x80, 0, 0, 0, 0, 0, 0, 0, 0]"
    unfolding ab(4) by (rule le_bytes_2_31)
  have P: "(2::nat) ^ 32 = 4294967296" by simp
  show ?thesis
    unfolding a_def [symmetric] b_def [symmetric] P
    by (intro conjI A B L)
qed

section \<open>The key derivation\<close>

lemma Buffer_from_info:
  "Buffer_from ''ss-subkey'' = [0x73, 0x73, 0x2d, 0x73, 0x75, 0x62, 0x6b, 0x65, 0x79]"
  by (simp add: Buffer_from_def)

lemma length_spec_d:
  "\<forall>x. length (h x) = 16 \<Longrightarrow> length (spec_d h pw i) = 16"
  by (cases i) simp_all

lemma length_concat_spec_d:
  "\<forall>x. length (h x) = 16 \<Longrightarrow> length (concat (map (spec_d h pw) [0..<n])) = n * 16"
  by (induction n) (simp_all add: length_spec_d)

lemma EVP_rounds:
  assumes h: "\<forall>x. length (createHash lib ''md5'' x) = 16"
  shows "n \<le> R \<Longrightarrow>
     fold (EVP_round lib pw) [0..<n] ([], replicate (R * 16) 0) =
       ((if n = 0 then [] else spec_d (createHash lib ''md5'') pw (n - 1)),
        concat (map (spec_d (createHash lib ''md5'') pw) [0..<n]) @
          replicate ((R - n) * 16) 0)"
proof (induction n)
  case 0
  then show ?case by simp
next
  case (Suc n)
  let ?h = "createHash lib ''md5''"
  let ?A = "concat (map (spec_d ?h pw) [0..<n])"
  from Suc.prems have n: "n < R" by simp
  have la: "length ?A = n * 16" using h by (rule length_concat_spec_d)
  have ld: "length (spec_d ?h pw n) = 16" using h by (rule length_spec_d)
  have last: "?h ((if 0 < n then (if n = 0 then [] else spec_d ?h pw (n - 1)) else []) @ pw) =
              spec_d ?h pw n"
    by (cases n) simp_all
  have rep: "replicate ((R - n) * 16) (0::byte) = replicate 16 0 @ replicate ((R - Suc n) * 16) 0"
    using n by (simp add: replicate_add [symmetric] Suc_diff_Suc [symmetric] del: replicate_Suc)
  have cp: "copy (spec_d ?h pw n) (?A @ replicate ((R - n) * 16) 0) (n * 16) =
            ?A @ spec_d ?h pw n @ replicate ((R - Suc n) * 16) 0"
    unfolding rep using la ld by (simp add: copy_def Let_def min_def)
  show ?case
    using Suc.IH n last cp by (simp add: EVP_round_def Let_def)
qed

lemma concat_spec_d_split:
  "a \<le> b \<Longrightarrow>
   concat (map f [0..<b]) = concat (map f [0..<a]) @ concat (map f [a..<b])"
proof -
  assume "a \<le> b"
  then have "[0..<b] = [0..<a] @ [a..<b]"
    using upt_add_eq_append [of 0 a "b - a"] by simp
  then show ?thesis by simp
qed

lemma EVP_BytesToKey_spec:
  assumes h: "\<forall>x. length (createHash lib ''md5'' x) = 16"
  shows "EVP_BytesToKey lib pw keyLen =
           spec_EVP_BytesToKey (createHash lib ''md5'') (Buffer_from pw) keyLen"
proof -
  let ?h = "createHash lib ''md5''"
  let ?pw = "Buffer_from pw"
  define R where "R = (keyLen + 15) div 16"
  have Rk: "R \<le> keyLen" "keyLen \<le> R * 16"
    by (simp_all add: R_def)
  have "EVP_BytesToKey lib pw keyLen =
          take keyLen (snd (fold (EVP_round lib ?pw) [0..<R] ([], replicate (R * 16) 0)))"
    by (simp add: EVP_BytesToKey_def Let_def R_def slice_def)
  also have "\<dots> = take keyLen (concat (map (spec_d ?h ?pw) [0..<R]))"
    by (simp add: EVP_rounds [OF h order_refl])
  also have "\<dots> = take keyLen (concat (map (spec_d ?h ?pw) [0..<keyLen]))"
    using Rk(2) length_concat_spec_d [OF h, of ?pw R]
    by (simp add: concat_spec_d_split [OF Rk(1), of "spec_d ?h ?pw"])
  finally show ?thesis by (simp add: spec_EVP_BytesToKey_def)
qed

text \<open>
  C7. \<open>deriveKey(password, salt, key_size)\<close> is a function of its arguments and of the
  primitives alone, and, MD5 digests having 16 bytes, it equals HKDF with hash SHA1,
  input keying material the MD5 stretch \<open>d_0 = MD5(password)\<close>,
  \<open>d_i = MD5(d_{i-1} \<parallel> password)\<close> cut to \<open>key_size\<close> bytes, the given salt, the 9 bytes
  of \<open>ss-subkey\<close> as info, and output length \<open>key_size\<close>.
\<close>

theorem deriveKey_is_hkdf_of_md5_stretch:
  assumes "\<forall>x. length (createHash lib ''md5'' x) = 16"
  shows "deriveKey lib pw salt' key_size = spec_deriveKey lib pw salt' key_size \<and>
         EVP_BytesToKey lib pw key_size =
           spec_EVP_BytesToKey (createHash lib ''md5'') (Buffer_from pw) key_size"
  using EVP_BytesToKey_spec [OF assms]
  by (simp add: deriveKey_def spec_deriveKey_def Let_def Buffer_from_info)

lemma replicate_32: "replicate 32 x = replicate 16 x @ replicate 16 x"
  by (simp add: replicate_add [symmetric])

lemma upt_0_2: "[0..<2] = [0, Suc 0]"
  by (simp add: numeral_2_eq_2)

lemma toy_key_pass:
  "deriveKey toy_crypto ''pass'' (replicate 32 0) 32 = replicate 16 184 @ replicate 16 56"
  by (simp add: deriveKey_def EVP_BytesToKey_def EVP_round_def toy_crypto_def Buffer_from_def
        copy_def slice_def Let_def replicate_16 replicate_32 upt_0_2)

theorem deriveKey_is_hkdf_of_md5_stretch_witness:
  "spec_deriveKey toy_crypto ''pass'' (replicate 32 0) 32 =
     replicate 16 184 @ replicate 16 56 \<and>
   deriveKey toy_crypto ''pass'' (replicate 32 0) 32 = replicate 16 184 @ replicate 16 56"
proof -
  have "\<forall>x. length (createHash toy_crypto ''md5'' x) = 16"
    by (simp add: toy_crypto_def)
  from deriveKey_is_hkdf_of_md5_stretch [OF this, of "''pass''" "replicate 32 0" 32] toy_key_pass
  show ?thesis by simp
qed

end
